theory Spec2Isabelle
  imports Main "HOL-Library.Sublist"
begin

section \<open>The standard ACP runtime adapter (StandardAcpRuntime)\<close>

text \<open>
  A shallow embedding of the class \<open>StandardAcpRuntime\<close>: the JSON-RPC transport of one
  agent process (\<open>sendRequest\<close>, the stdout line handler, the close and error
  handlers of \<open>spawnAgent\<close>), the session registry (\<open>ensureSession\<close>, \<open>initAgent\<close>,
  \<open>close\<close>, \<open>closeAll\<close>), the turn engine (\<open>runTurn\<close>) and the notification mapper
  (\<open>mapNotificationToEvent\<close>).

  The definitions follow the revision of the class that has the fields \<open>stdin\<close> and
  \<open>cwd\<close> in \<open>AgentProcess\<close> and the map \<open>initializing\<close> (the file
  \<open>src/unnamed/part_004\<close>, the one the test suite \<open>src/unnamed/part_003\<close> exercises).
  The file \<open>src/extensions/acp-standard/src/runtime.ts\<close> is an earlier revision of the same
  class, without the in-flight map, the pre-aborted guard of \<open>runTurn\<close> and the branch of
  the line handler for requests of the agent; it is not modelled.
\<close>

subsection \<open>JSON values as JavaScript sees them\<close>

text \<open>
  The value \<open>JSON.parse\<close> returns. Numbers are the integers (the request ids the
  transport allocates are integers; a fractional number behaves like an integer that
  matches no id). An object keeps its members in order; a repeated key reads as its last
  occurrence, as \<open>JSON.parse\<close> leaves it.
\<close>

datatype json =
    JNull
  | JBool bool
  | JNum int
  | JStr string
  | JArr "json list"
  | JObj "(string \<times> json) list"

text \<open>\<open>v.k\<close> for the property names the adapter reads; \<open>None\<close> is \<open>undefined\<close>.\<close>

fun js_get :: "json \<Rightarrow> string \<Rightarrow> json option" where
  "js_get (JObj kvs) k = map_of (rev kvs) k"
| "js_get _ k = None"

text \<open>\<open>k in v\<close>: a \<open>TypeError\<close> (\<open>None\<close>) unless \<open>v\<close> is an object or an array.\<close>

fun js_in :: "string \<Rightarrow> json \<Rightarrow> bool option" where
  "js_in k (JObj kvs) = Some (k \<in> fst ` set kvs)"
| "js_in k (JArr xs) = Some False"
| "js_in k _ = None"

text \<open>Truthiness, as \<open>!v\<close> and \<open>if (v)\<close> test it.\<close>

fun truthy :: "json \<Rightarrow> bool" where
  "truthy JNull = False"
| "truthy (JBool b) = b"
| "truthy (JNum n) = (n \<noteq> 0)"
| "truthy (JStr s) = (s \<noteq> [])"
| "truthy (JArr _) = True"
| "truthy (JObj _) = True"

text \<open>\<open>a ?? d\<close> and \<open>a?.k\<close>: \<open>null\<close> and \<open>undefined\<close> are the nullish values.\<close>

definition nullish :: "json option \<Rightarrow> json \<Rightarrow> json" where
  "nullish a d = (case a of None \<Rightarrow> d | Some JNull \<Rightarrow> d | Some v \<Rightarrow> v)"

definition opt_chain :: "json option \<Rightarrow> string \<Rightarrow> json option" where
  "opt_chain a k = (case a of None \<Rightarrow> None | Some JNull \<Rightarrow> None | Some v \<Rightarrow> js_get v k)"

text \<open>
  \<open>String(v)\<close>, which a template literal applies to each of its holes: a string is
  itself, an integer is printed in decimal, an array joins its elements with commas
  (an element \<open>null\<close> prints as nothing), an object prints as \<open>[object Object]\<close>.
\<close>

fun dec :: "nat \<Rightarrow> string" where
  "dec n = (if n < 10 then [''0123456789'' ! n]
            else dec (n div 10) @ [''0123456789'' ! (n mod 10)])"

declare dec.simps [simp del]

fun js_String :: "json \<Rightarrow> string" and js_join :: "json list \<Rightarrow> string" where
  "js_String JNull = ''null''"
| "js_String (JBool b) = (if b then ''true'' else ''false'')"
| "js_String (JNum i) = (if i < 0 then ''-'' @ dec (nat (- i)) else dec (nat i))"
| "js_String (JStr s) = s"
| "js_String (JArr xs) = js_join xs"
| "js_String (JObj kvs) = ''[object Object]''"
| "js_join [] = ''''"
| "js_join [x] = (if x = JNull then '''' else js_String x)"
| "js_join (x # y # ys) = (if x = JNull then '''' else js_String x) @ '','' @ js_join (y # ys)"

subsection \<open>Errors and events\<close>

text \<open>
  The \<open>Error\<close> objects the adapter creates, and the ones the platform hands to it:
  \<open>Error m\<close> is \<open>new Error(m)\<close>, \<open>RpcError e\<close> is
  \<open>new Error(JSON.stringify(e))\<close> for the \<open>error\<close> member \<open>e\<close> of a response,
  \<open>Foreign m\<close> is an error of the platform (a failed write, a failed spawn) whose text
  is \<open>m\<close>, and \<open>AcpRuntimeError code m\<close> is the plugin SDK's error class.
\<close>

datatype js_error =
    Error string
  | RpcError json
  | Foreign string
  | AcpRuntimeError string string

text \<open>
  \<open>AcpRuntimeEvent\<close>: \<open>text_delta{text, stream}\<close>, \<open>tool_call{text}\<close>,
  \<open>status{text}\<close>, \<open>done{stopReason}\<close>, \<open>error{message}\<close>. A member the
  code fills with a value cast from JSON (\<open>as string\<close> checks nothing at run time) holds
  that JSON value. The message of an error event is a literal (\<open>Inl\<close>) or
  \<open>String(err)\<close> for an error \<open>err\<close> (\<open>Inr\<close>).
\<close>

datatype event =
    TextDelta json string
  | ToolCall json
  | Status string
  | Done json
  | ErrorEv "string + js_error"

text \<open>The test of the event pump: \<open>event.type === "done" || event.type === "error"\<close>.\<close>

fun terminal :: "event \<Rightarrow> bool" where
  "terminal (Done _) = True"
| "terminal (ErrorEv _) = True"
| "terminal _ = False"

subsection \<open>The notification mapper\<close>

text \<open>
  \<open>mapNotificationToEvent(params)\<close>: \<open>None\<close> is the \<open>null\<close> that drops the
  notification. The \<open>switch\<close> compares with \<open>===\<close>, so only a string selects a case.
\<close>

definition mapNotificationToEvent :: "json \<Rightarrow> event option" where
  "mapNotificationToEvent params =
     (case js_get params ''update'' of
        None \<Rightarrow> None
      | Some update \<Rightarrow>
          if \<not> truthy update then None
          else (case js_get update ''sessionUpdate'' of
                  Some (JStr kind) \<Rightarrow>
                    if kind = ''agent_message_chunk'' then
                      Some (TextDelta
                        (nullish (opt_chain (js_get update ''content'') ''text'') (JStr ''''))
                        ''output'')
                    else if kind = ''tool_call'' then
                      Some (ToolCall (nullish (js_get update ''title'') (JStr ''tool'')))
                    else if kind = ''tool_call_update'' then
                      Some (Status (''tool ''
                        @ js_String (nullish (js_get update ''toolCallId'') (JStr ''''))
                        @ '': ''
                        @ js_String (nullish (js_get update ''status'') (JStr ''''))))
                    else None
                | _ \<Rightarrow> None))"

subsection \<open>One agent process and its JSON-RPC transport\<close>

text \<open>
  A promise is settled once: \<open>resolve\<close> and \<open>reject\<close> on a settled promise do
  nothing. \<open>Fulfilled None\<close> is a promise resolved with \<open>undefined\<close> (a response
  without \<open>result\<close>).
\<close>

datatype promise = Unsettled | Fulfilled "json option" | Rejected js_error

definition settle :: "promise \<Rightarrow> promise \<Rightarrow> promise" where
  "settle outcome p = (if p = Unsettled then outcome else p)"

text \<open>
  A timer made by \<open>setTimeout\<close>: armed with its delay in milliseconds, cleared by
  \<open>clearTimeout\<close>, or fired. Clearing a timer that has fired changes nothing.
\<close>

datatype timer = Armed nat | Cleared | Fired

text \<open>
  What one call of \<open>sendRequest\<close> creates and its closures share: the method, the
  variable \<open>timer\<close> (\<open>None\<close> when it stays \<open>undefined\<close>) and the promise the call
  returns.
\<close>

record call =
  req_method :: string
  req_timer :: "timer option"
  req_promise :: promise

text \<open>
  \<open>AgentProcess\<close>. \<open>key_of\<close> is the \<open>key\<close> the handlers of \<open>spawnAgent\<close> close
  over; \<open>kills\<close> lists the signals given to \<open>child.kill\<close>; \<open>spawn_command\<close>,
  \<open>spawn_args\<close> and \<open>spawn_cwd\<close> are the arguments \<open>spawn\<close> received (the
  environment and the Windows shell rule are left out); \<open>written\<close> lists the messages
  written to \<open>stdin\<close>, each one line, oldest first. \<open>pending\<close> holds the keys of the
  \<open>pending\<close> map in insertion order: the entry of \<open>rid\<close> is the pair of closures of
  \<open>calls rid\<close>. \<open>sessionId\<close> is \<open>JNull\<close> for \<open>null\<close>.
  \<open>notifications\<close> names the turn whose sink is installed.
\<close>

record agent_process =
  key_of :: string
  kills :: "string list"
  spawn_command :: string
  spawn_args :: "string list"
  spawn_cwd :: string
  written :: "json list"
  sessionId :: json
  cwd :: string
  nextId :: nat
  pending :: "nat list"
  calls :: "nat \<rightharpoonup> call"
  notifications :: "nat option"

definition CONTROL_TIMEOUT_MS :: nat where
  "CONTROL_TIMEOUT_MS = 30000"

definition CONTROL_METHODS :: "string set" where
  "CONTROL_METHODS = {''initialize'', ''session/new'', ''session/cancel'', ''session/set_mode''}"

definition request_message :: "nat \<Rightarrow> string \<Rightarrow> json \<Rightarrow> json" where
  "request_message rid m params =
     JObj [(''jsonrpc'', JStr ''2.0''), (''id'', JNum (int rid)), (''method'', JStr m),
           (''params'', params)]"

text \<open>
  \<open>sendRequest(agent, method, params)\<close>, the synchronous part: it allocates the id, arms
  the timer for a control method, registers the pending entry and writes the request. The
  promise it returns is \<open>req_promise\<close> of \<open>calls rid\<close>.
\<close>

definition sendRequest :: "string \<Rightarrow> json \<Rightarrow> agent_process \<Rightarrow> nat \<times> agent_process" where
  "sendRequest m params ag =
     (let rid = nextId ag in
      (rid, ag\<lparr> nextId := rid + 1,
               calls := (calls ag)(rid \<mapsto>
                  \<lparr> req_method = m,
                    req_timer = (if m \<in> CONTROL_METHODS then Some (Armed CONTROL_TIMEOUT_MS)
                                 else None),
                    req_promise = Unsettled \<rparr>),
               pending := (if rid \<in> set (pending ag) then pending ag else pending ag @ [rid]),
               written := written ag @ [request_message rid m params] \<rparr>))"

definition clearTimeout :: "nat \<Rightarrow> agent_process \<Rightarrow> agent_process" where
  "clearTimeout rid ag =
     (case calls ag rid of
        None \<Rightarrow> ag
      | Some c \<Rightarrow>
          (case req_timer c of
             Some (Armed ms) \<Rightarrow> ag\<lparr> calls := (calls ag)(rid \<mapsto> c\<lparr> req_timer := Some Cleared \<rparr>) \<rparr>
           | _ \<Rightarrow> ag))"

definition settle_call :: "nat \<Rightarrow> promise \<Rightarrow> agent_process \<Rightarrow> agent_process" where
  "settle_call rid outcome ag =
     (case calls ag rid of
        None \<Rightarrow> ag
      | Some c \<Rightarrow>
          ag\<lparr> calls := (calls ag)(rid \<mapsto> c\<lparr> req_promise := settle outcome (req_promise c) \<rparr>) \<rparr>)"

text \<open>The two closures of a pending entry: clear the timer, then settle the promise.\<close>

definition entry_resolve :: "nat \<Rightarrow> json option \<Rightarrow> agent_process \<Rightarrow> agent_process" where
  "entry_resolve rid v ag = settle_call rid (Fulfilled v) (clearTimeout rid ag)"

definition entry_reject :: "nat \<Rightarrow> js_error \<Rightarrow> agent_process \<Rightarrow> agent_process" where
  "entry_reject rid e ag = settle_call rid (Rejected e) (clearTimeout rid ag)"

text \<open>
  The callback of the timer. It runs only while the timer is armed: it deletes the
  pending entry and rejects with the message that names the method.
\<close>

definition on_timeout :: "nat \<Rightarrow> agent_process \<Rightarrow> agent_process" where
  "on_timeout rid ag =
     (case calls ag rid of
        None \<Rightarrow> ag
      | Some c \<Rightarrow>
          (case req_timer c of
             Some (Armed ms) \<Rightarrow>
               settle_call rid (Rejected (Error (''JSON-RPC request timed out: '' @ req_method c)))
                 (ag\<lparr> calls := (calls ag)(rid \<mapsto> c\<lparr> req_timer := Some Fired \<rparr>),
                      pending := removeAll rid (pending ag) \<rparr>)
           | _ \<Rightarrow> ag))"

text \<open>The callback of \<open>stdin.write\<close> for the request \<open>rid\<close>, with the error if any.\<close>

definition on_written :: "nat \<Rightarrow> js_error option \<Rightarrow> agent_process \<Rightarrow> agent_process" where
  "on_written rid err ag =
     (case err of
        None \<Rightarrow> ag
      | Some e \<Rightarrow>
          settle_call rid (Rejected e)
            ((clearTimeout rid ag)\<lparr> pending := removeAll rid (pending (clearTimeout rid ag)) \<rparr>))"

definition method_not_supported :: "json \<Rightarrow> json" where
  "method_not_supported rid =
     JObj [(''jsonrpc'', JStr ''2.0''), (''id'', rid),
           (''error'', JObj [(''code'', JNum (- 32601)),
                             (''message'', JStr ''Method not supported by this client'')])]"

text \<open>
  The handler of one stdout line. Its argument is what \<open>JSON.parse(line)\<close> returns,
  \<open>None\<close> when it throws. The result is the agent and the event handed to
  \<open>agent.notifications\<close>, if any. A \<open>TypeError\<close> of \<open>in\<close> on a value that is not an
  object is caught like a malformed line. The pending map is keyed by numbers, so only a
  number finds an entry.
\<close>

definition on_line :: "json option \<Rightarrow> agent_process \<Rightarrow> agent_process \<times> event option" where
  "on_line parsed ag =
     (case parsed of
        None \<Rightarrow> (ag, None)
      | Some msg \<Rightarrow>
          (case js_in ''id'' msg of
             None \<Rightarrow> (ag, None)
           | Some has_id \<Rightarrow>
               if has_id \<and> js_get msg ''id'' \<noteq> None \<and> js_get msg ''id'' \<noteq> Some JNull then
                 (if js_in ''method'' msg = Some True then
                    (ag\<lparr> written := written ag @ [method_not_supported (the (js_get msg ''id''))] \<rparr>,
                     None)
                  else
                    (case js_get msg ''id'' of
                       Some (JNum n) \<Rightarrow>
                         if 0 \<le> n \<and> nat n \<in> set (pending ag) then
                           (let ag' = ag\<lparr> pending := removeAll (nat n) (pending ag) \<rparr> in
                            if js_in ''error'' msg = Some True then
                              (entry_reject (nat n) (RpcError (the (js_get msg ''error''))) ag',
                               None)
                            else (entry_resolve (nat n) (js_get msg ''result'') ag', None))
                         else (ag, None)
                     | _ \<Rightarrow> (ag, None)))
               else if js_in ''method'' msg = Some True
                       \<and> js_get msg ''method'' = Some (JStr ''session/update'') then
                 (case js_get msg ''params'' of
                    None \<Rightarrow> (ag, None)
                  | Some params \<Rightarrow>
                      if \<not> truthy params then (ag, None)
                      else (ag, mapNotificationToEvent params))
               else (ag, None)))"

text \<open>
  The part of the \<open>close\<close> and \<open>error\<close> handlers of \<open>spawnAgent\<close> that concerns the
  agent: reject every pending entry with the error, then clear the map.
\<close>

definition reject_all :: "js_error \<Rightarrow> agent_process \<Rightarrow> agent_process" where
  "reject_all e ag = (fold (\<lambda>rid. entry_reject rid e) (pending ag) ag)\<lparr> pending := [] \<rparr>"

text \<open>
  What can happen to one agent process, and the run of a list of such happenings. This is
  the transport seen alone; the runtime below applies the same functions.
\<close>

datatype action =
    Send string json
  | Line "json option"
  | TimerFires nat
  | WriteDone nat "js_error option"
  | ProcClose
  | ProcError js_error

fun act :: "action \<Rightarrow> agent_process \<Rightarrow> agent_process" where
  "act (Send m params) ag = snd (sendRequest m params ag)"
| "act (Line parsed) ag = fst (on_line parsed ag)"
| "act (TimerFires rid) ag = on_timeout rid ag"
| "act (WriteDone rid err) ag = on_written rid err ag"
| "act ProcClose ag = reject_all (Error ''agent process exited'') ag"
| "act (ProcError e) ag = reject_all e ag"

definition acts :: "action list \<Rightarrow> agent_process \<Rightarrow> agent_process" where
  "acts xs ag = fold act xs ag"

text \<open>The promise of the call \<open>rid\<close> (unsettled when there is no such call).\<close>

definition promise_in :: "agent_process \<Rightarrow> nat \<Rightarrow> promise" where
  "promise_in ag rid = (case calls ag rid of None \<Rightarrow> Unsettled | Some c \<Rightarrow> req_promise c)"

definition timer_in :: "agent_process \<Rightarrow> nat \<Rightarrow> timer option" where
  "timer_in ag rid = (case calls ag rid of None \<Rightarrow> None | Some c \<Rightarrow> req_timer c)"

text \<open>The agent as \<open>spawnAgent\<close> creates it, for the configured command and cwd.\<close>

definition new_agent :: "string \<Rightarrow> string \<Rightarrow> string list \<Rightarrow> string \<Rightarrow> agent_process" where
  "new_agent key cmd argv dir =
     \<lparr> key_of = key, kills = [], spawn_command = cmd, spawn_args = argv, spawn_cwd = dir,
       written = [], sessionId = JNull, cwd = dir, nextId = 1, pending = [],
       calls = Map.empty, notifications = None \<rparr>"

text \<open>
  Three notions the properties below are stated with. \<open>known ag rid\<close>: a call of
  \<open>sendRequest\<close> has got the id. \<open>wf_agent\<close>: what every run of the transport keeps
  true of an agent. \<open>removes x rid\<close>: the happenings whose handler can delete the pending
  entry \<open>rid\<close> (a response with that id, the timer of that call, a failed write of that
  call, the close handler, the error handler).
\<close>

definition known :: "agent_process \<Rightarrow> nat \<Rightarrow> bool" where
  "known ag rid \<longleftrightarrow> calls ag rid \<noteq> None"

definition wf_agent :: "agent_process \<Rightarrow> bool" where
  "wf_agent ag \<longleftrightarrow>
     distinct (pending ag)
     \<and> (\<forall>rid \<in> set (pending ag). promise_in ag rid = Unsettled \<and> known ag rid)
     \<and> (\<forall>rid. known ag rid \<longrightarrow> rid < nextId ag)"

fun removes :: "action \<Rightarrow> nat \<Rightarrow> bool" where
  "removes (Line (Some msg)) rid =
     (js_get msg ''id'' = Some (JNum (int rid)) \<and> js_in ''method'' msg = Some False)"
| "removes (TimerFires r) rid = (r = rid)"
| "removes (WriteDone r (Some e)) rid = (r = rid)"
| "removes ProcClose rid = True"
| "removes (ProcError e) rid = True"
| "removes _ rid = False"

text \<open>
  The method of the call \<open>rid\<close>, and a second invariant of every run: an armed timer
  belongs to an unsettled promise.
\<close>

definition method_in :: "agent_process \<Rightarrow> nat \<Rightarrow> string option" where
  "method_in ag rid = map_option req_method (calls ag rid)"

text \<open>
  The triggers the specification lists for the removal of a pending entry: a matching
  response, the timeout of the call, a failed write of the call, the close handler.
\<close>

fun listed_trigger :: "action \<Rightarrow> nat \<Rightarrow> bool" where
  "listed_trigger (Line (Some msg)) rid =
     (js_get msg ''id'' = Some (JNum (int rid)) \<and> js_in ''method'' msg = Some False)"
| "listed_trigger (TimerFires r) rid = (r = rid)"
| "listed_trigger (WriteDone r (Some e)) rid = (r = rid)"
| "listed_trigger ProcClose rid = True"
| "listed_trigger _ rid = False"


subsection \<open>The turn engine: the state of one \<open>runTurn\<close> generator\<close>

text \<open>
  Where the generator of \<open>runTurn\<close> stands: suspended at \<open>yield event\<close>
  (\<open>AtYield\<close>), suspended at the \<open>await\<close> of an empty buffer (\<open>Waiting\<close>), or
  finished (\<open>Ended\<close>).
\<close>

datatype phase = Waiting | AtYield event | Ended

text \<open>
  The local variables of one call of \<open>runTurn\<close> and what its consumer has received.
  \<open>tu_agent\<close> is the agent the call resolved and \<open>tu_prompt\<close> the id of its
  \<open>session/prompt\<close> request (\<open>None\<close> for a call that returned or threw before);
  \<open>tu_signal\<close> tells whether \<open>input.signal\<close> is present; \<open>hooked\<close> holds while the
  close and abort listeners are attached; \<open>abort_fired\<close> records that the abort listener
  (registered with \<open>once\<close>) has run; \<open>prompt_reacted\<close> records that the \<open>then\<close> or
  \<open>catch\<close> callback of the prompt promise has run; \<open>events\<close> is the buffer,
  \<open>done_flag\<close> the variable \<open>done\<close>; \<open>yielded\<close> lists the events the generator
  has yielded; \<open>failure\<close> is the error the call threw. \<open>delivered\<close> is a history
  variable that no operation reads: the events the sink of this turn received, in order.
\<close>

record turn =
  tu_key :: string
  tu_agent :: "nat option"
  tu_prompt :: nat
  tu_signal :: bool
  hooked :: bool
  abort_fired :: bool
  prompt_reacted :: bool
  events :: "event list"
  done_flag :: bool
  phase :: phase
  yielded :: "event list"
  failure :: "js_error option"
  delivered :: "event list"

text \<open>The sink \<open>agent.notifications\<close> of the turn, and the hooks that push an event.\<close>

definition push :: "event \<Rightarrow> turn \<Rightarrow> turn" where
  "push e tu = tu\<lparr> events := events tu @ [e] \<rparr>"

definition sink :: "event \<Rightarrow> turn \<Rightarrow> turn" where
  "sink e tu = (push e tu)\<lparr> delivered := delivered tu @ [e] \<rparr>"

definition onClose :: "turn \<Rightarrow> turn" where
  "onClose tu =
     (if \<not> done_flag tu then push (ErrorEv (Inl ''agent process exited unexpectedly'')) tu
      else tu)"

definition onAbort :: "turn \<Rightarrow> turn" where
  "onAbort tu = (if \<not> done_flag tu then push (Done (JStr ''cancelled'')) tu else tu)"

definition prompt_then :: "json option \<Rightarrow> turn \<Rightarrow> turn" where
  "prompt_then res tu =
     (if \<not> done_flag tu then
        push (Done (nullish (opt_chain res ''stopReason'') (JStr ''end_turn''))) tu
      else tu)"

definition prompt_catch :: "js_error \<Rightarrow> turn \<Rightarrow> turn" where
  "prompt_catch err tu = (if \<not> done_flag tu then push (ErrorEv (Inr err)) tu else tu)"

text \<open>
  The event pump from the top of its loop to its next suspension: it leaves the loop
  (and runs \<open>finally\<close>, which detaches the hooks) when \<open>done\<close> holds, yields the head
  of the buffer when there is one, and awaits otherwise.
\<close>

definition pump :: "turn \<Rightarrow> turn" where
  "pump tu =
     (if done_flag tu then tu\<lparr> phase := Ended, hooked := False \<rparr>
      else (case events tu of
              e # es \<Rightarrow> tu\<lparr> events := es, yielded := yielded tu @ [e], phase := AtYield e \<rparr>
            | [] \<Rightarrow> tu\<lparr> phase := Waiting \<rparr>))"

text \<open>
  The consumer's \<open>next()\<close> on a generator suspended at a yield: the statement after the
  yield sets \<open>done\<close> for a terminal event, and the loop goes on. The generator of a
  pre-aborted call is suspended at the yield before \<open>return\<close>. A consumer that follows
  the iteration protocol of \<open>for await\<close> calls \<open>next()\<close> only then.
\<close>

definition resume :: "turn \<Rightarrow> turn" where
  "resume tu =
     (case phase tu of
        AtYield e \<Rightarrow>
          if tu_agent tu = None then tu\<lparr> phase := Ended \<rparr>
          else pump (if terminal e then tu\<lparr> done_flag := True \<rparr> else tu)
      | _ \<Rightarrow> tu)"

text \<open>A push calls \<open>resolveWait\<close>: a generator that awaits goes on with its loop.\<close>

definition wake :: "turn \<Rightarrow> turn" where
  "wake tu = (if phase tu = Waiting \<and> events tu \<noteq> [] then pump tu else tu)"

subsection \<open>The runtime: registry, initialization, turns\<close>

record config =
  cfg_command :: string
  cfg_args :: "string list"
  cfg_cwd :: string

record handle =
  sessionKey :: string
  backend :: string
  runtimeSessionName :: json
  handle_cwd :: string

text \<open>\<open>AcpRuntimeEnsureInput\<close>: the members the code reads.\<close>

record ensure_input =
  in_sessionKey :: string
  in_cwd :: "string option"

text \<open>
  \<open>AcpRuntimeTurnInput\<close>: the session key of the handle, the text, and the signal
  (\<open>None\<close> when absent, else whether it is aborted when the generator starts).
\<close>

record turn_input =
  in_key :: string
  in_text :: string
  in_signal :: "bool option"

text \<open>
  One call of \<open>initAgent\<close> together with the \<open>ensureSession\<close> that awaits it: the
  request it awaits, or how its promise settled.
\<close>

datatype stage = AwaitInitialize nat | AwaitSessionNew nat | Settled "js_error + handle"

record init_task =
  task_key :: string
  task_input :: ensure_input
  task_agent :: nat
  task_stage :: stage

text \<open>
  The instance of \<open>StandardAcpRuntime\<close>. \<open>agents\<close> and \<open>initializing\<close> are its two
  maps; \<open>agents\<close> holds references into \<open>procs\<close>, the \<open>AgentProcess\<close> objects
  created so far, and \<open>initializing\<close> references into \<open>tasks\<close>, the promises of
  \<open>initAgent\<close>. \<open>turns\<close> are the generators created so far. The logger is left out.
\<close>

record runtime =
  config :: config
  agents :: "string \<rightharpoonup> nat"
  initializing :: "string \<rightharpoonup> nat"
  procs :: "nat \<rightharpoonup> agent_process"
  n_procs :: nat
  tasks :: "nat \<rightharpoonup> init_task"
  n_tasks :: nat
  turns :: "nat \<rightharpoonup> turn"
  n_turns :: nat

definition new_runtime :: "config \<Rightarrow> runtime" where
  "new_runtime cfg =
     \<lparr> config = cfg, agents = Map.empty, initializing = Map.empty, procs = Map.empty,
       n_procs = 0, tasks = Map.empty, n_tasks = 0, turns = Map.empty, n_turns = 0 \<rparr>"

definition STANDARD_ACP_BACKEND_ID :: string where
  "STANDARD_ACP_BACKEND_ID = ''acp-standard''"

definition upd_agent :: "nat \<Rightarrow> (agent_process \<Rightarrow> agent_process) \<Rightarrow> runtime \<Rightarrow> runtime" where
  "upd_agent a f rt =
     (case procs rt a of None \<Rightarrow> rt | Some ag \<Rightarrow> rt\<lparr> procs := (procs rt)(a \<mapsto> f ag) \<rparr>)"

definition upd_turn :: "nat \<Rightarrow> (turn \<Rightarrow> turn) \<Rightarrow> runtime \<Rightarrow> runtime" where
  "upd_turn t f rt =
     (case turns rt t of None \<Rightarrow> rt | Some tu \<Rightarrow> rt\<lparr> turns := (turns rt)(t \<mapsto> f tu) \<rparr>)"

definition kill :: "string \<Rightarrow> agent_process \<Rightarrow> agent_process" where
  "kill signame ag = ag\<lparr> kills := kills ag @ [signame] \<rparr>"

definition promise_of :: "runtime \<Rightarrow> nat \<Rightarrow> nat \<Rightarrow> promise" where
  "promise_of rt a rid = (case procs rt a of None \<Rightarrow> Unsettled | Some ag \<Rightarrow> promise_in ag rid)"

text \<open>\<open>this.sendRequest(agent, method, params)\<close> on the agent with reference \<open>a\<close>.\<close>

definition send :: "nat \<Rightarrow> string \<Rightarrow> json \<Rightarrow> runtime \<Rightarrow> nat \<times> runtime" where
  "send a m params rt =
     (case procs rt a of
        None \<Rightarrow> (0, rt)
      | Some ag \<Rightarrow>
          (let (rid, ag') = sendRequest m params ag
           in (rid, rt\<lparr> procs := (procs rt)(a \<mapsto> ag') \<rparr>)))"

text \<open>
  \<open>spawnAgent(key)\<close>: the child is spawned with the configured command, arguments and
  cwd, and the new \<open>AgentProcess\<close> records the configured cwd.
\<close>

definition spawnAgent :: "string \<Rightarrow> runtime \<Rightarrow> nat \<times> runtime" where
  "spawnAgent key rt =
     (let a = n_procs rt in
      (a, rt\<lparr> procs := (procs rt)(a \<mapsto>
                  new_agent key (cfg_command (config rt)) (cfg_args (config rt))
                    (cfg_cwd (config rt))),
              n_procs := a + 1 \<rparr>))"

definition effective_cwd :: "ensure_input \<Rightarrow> runtime \<Rightarrow> string" where
  "effective_cwd inp rt = (case in_cwd inp of None \<Rightarrow> cfg_cwd (config rt) | Some d \<Rightarrow> d)"

text \<open>The params of the two requests of the handshake.\<close>

definition initialize_params :: json where
  "initialize_params =
     JObj [(''protocolVersion'', JStr ''0.1''),
           (''clientInfo'', JObj [(''name'', JStr ''openclaw''), (''version'', JStr ''1.0.0'')])]"

definition session_new_params :: "string \<Rightarrow> json" where
  "session_new_params dir = JObj [(''cwd'', JStr dir), (''mcpServers'', JArr [])]"

text \<open>
  \<open>initAgent(key, input)\<close> up to its first \<open>await\<close>: spawn, register, send
  \<open>initialize\<close>. The result is the reference of the task that stands for its promise.
\<close>

definition initAgent :: "string \<Rightarrow> ensure_input \<Rightarrow> runtime \<Rightarrow> nat \<times> runtime" where
  "initAgent key inp rt =
     (let (a, rt1) = spawnAgent key rt;
          rt2 = rt1\<lparr> agents := (agents rt1)(key \<mapsto> a) \<rparr>;
          (rid, rt3) = send a ''initialize'' initialize_params rt2;
          t = n_tasks rt3
      in (t, rt3\<lparr> tasks := (tasks rt3)(t \<mapsto>
                     \<lparr> task_key = key, task_input = inp, task_agent = a,
                       task_stage = AwaitInitialize rid \<rparr>),
                  n_tasks := t + 1 \<rparr>))"

text \<open>
  What a call of \<open>ensureSession\<close> returns: the promise of an initialization in flight
  (\<open>Inflight\<close>), a handle built from the registered agent (\<open>Reused\<close>), or the promise
  of the initialization it has just started (\<open>Fresh\<close>).
\<close>

datatype ensured = Inflight nat | Reused handle | Fresh nat

definition fresh_init :: "string \<Rightarrow> ensure_input \<Rightarrow> runtime \<Rightarrow> ensured \<times> runtime" where
  "fresh_init key inp rt =
     (let (t, rt1) = initAgent key inp rt
      in (Fresh t, rt1\<lparr> initializing := (initializing rt1)(key \<mapsto> t) \<rparr>))"

definition ensureSession :: "ensure_input \<Rightarrow> runtime \<Rightarrow> ensured \<times> runtime" where
  "ensureSession inp rt =
     (let key = in_sessionKey inp in
      case initializing rt key of
        Some t \<Rightarrow> (Inflight t, rt)
      | None \<Rightarrow>
          (case agents rt key of
             None \<Rightarrow> fresh_init key inp rt
           | Some a \<Rightarrow>
               (case procs rt a of
                  None \<Rightarrow> fresh_init key inp rt
                | Some agent \<Rightarrow>
                    if cwd agent \<noteq> effective_cwd inp rt then
                      fresh_init key inp
                        ((upd_agent a (kill ''SIGTERM'') rt)\<lparr> agents := (agents rt)(key := None) \<rparr>)
                    else
                      (Reused \<lparr> sessionKey = key, backend = STANDARD_ACP_BACKEND_ID,
                                runtimeSessionName = nullish (Some (sessionId agent)) (JStr key),
                                handle_cwd = effective_cwd inp rt \<rparr>,
                       rt))))"

text \<open>
  The \<open>catch\<close> block of \<open>initAgent\<close> followed by the \<open>finally\<close> of the
  \<open>ensureSession\<close> that awaits it.
\<close>

definition fail_init :: "nat \<Rightarrow> init_task \<Rightarrow> js_error \<Rightarrow> runtime \<Rightarrow> runtime" where
  "fail_init t task err rt =
     (let rt1 = upd_agent (task_agent task) (kill ''SIGTERM'') rt;
          rt2 = rt1\<lparr> agents := (agents rt1)(task_key task := None) \<rparr>
      in rt2\<lparr> tasks := (tasks rt2)(t \<mapsto> task\<lparr> task_stage := Settled (Inl err) \<rparr>),
              initializing := (initializing rt2)(task_key task := None) \<rparr>)"

text \<open>
  The continuation of \<open>initAgent\<close> at the \<open>await\<close> it is suspended at, run once the
  awaited promise is settled.
\<close>

definition resume_init :: "nat \<Rightarrow> runtime \<Rightarrow> runtime" where
  "resume_init t rt =
     (case tasks rt t of
        None \<Rightarrow> rt
      | Some task \<Rightarrow>
          (case task_stage task of
             AwaitInitialize rid \<Rightarrow>
               (case promise_of rt (task_agent task) rid of
                  Unsettled \<Rightarrow> rt
                | Rejected err \<Rightarrow> fail_init t task err rt
                | Fulfilled res \<Rightarrow>
                    (let (rid2, rt1) = send (task_agent task) ''session/new''
                                          (session_new_params (effective_cwd (task_input task) rt)) rt
                     in rt1\<lparr> tasks := (tasks rt1)(t \<mapsto> task\<lparr> task_stage := AwaitSessionNew rid2 \<rparr>) \<rparr>))
           | AwaitSessionNew rid \<Rightarrow>
               (case promise_of rt (task_agent task) rid of
                  Unsettled \<Rightarrow> rt
                | Rejected err \<Rightarrow> fail_init t task err rt
                | Fulfilled res \<Rightarrow>
                    (let key = task_key task;
                         sid = nullish (opt_chain res ''sessionId'') (JStr key);
                         dir = effective_cwd (task_input task) rt;
                         rt1 = upd_agent (task_agent task) (\<lambda>ag. ag\<lparr> sessionId := sid, cwd := dir \<rparr>) rt
                     in rt1\<lparr> tasks := (tasks rt1)(t \<mapsto> task\<lparr> task_stage := Settled (Inr
                                \<lparr> sessionKey = key, backend = STANDARD_ACP_BACKEND_ID,
                                  runtimeSessionName = nullish (Some sid) (JStr key),
                                  handle_cwd = dir \<rparr>) \<rparr>),
                             initializing := (initializing rt1)(key := None) \<rparr>))
           | Settled r \<Rightarrow> rt))"

text \<open>\<open>close\<close>, \<open>cancel\<close> and \<open>setMode\<close>, each up to its \<open>await\<close>.\<close>

definition close :: "string \<Rightarrow> runtime \<Rightarrow> runtime" where
  "close key rt =
     (case agents rt key of
        None \<Rightarrow> rt
      | Some a \<Rightarrow> (upd_agent a (kill ''SIGTERM'') rt)\<lparr> agents := (agents rt)(key := None) \<rparr>)"

definition cancel :: "string \<Rightarrow> runtime \<Rightarrow> runtime" where
  "cancel key rt =
     (case agents rt key of
        None \<Rightarrow> rt
      | Some a \<Rightarrow>
          (case procs rt a of
             None \<Rightarrow> rt
           | Some agent \<Rightarrow>
               snd (send a ''session/cancel'' (JObj [(''sessionId'', sessionId agent)]) rt)))"

definition setMode :: "string \<Rightarrow> string \<Rightarrow> runtime \<Rightarrow> runtime" where
  "setMode key mode rt =
     (case agents rt key of
        None \<Rightarrow> rt
      | Some a \<Rightarrow>
          (case procs rt a of
             None \<Rightarrow> rt
           | Some agent \<Rightarrow>
               snd (send a ''session/set_mode''
                      (JObj [(''sessionId'', sessionId agent), (''modeId'', JStr mode)]) rt)))"

text \<open>
  \<open>runTurn(input)\<close> with the first \<open>next()\<close> of its consumer: the body of the generator
  up to its first suspension. The turn gets the next free reference.
\<close>

definition blank_turn :: "string \<Rightarrow> turn" where
  "blank_turn key =
     \<lparr> tu_key = key, tu_agent = None, tu_prompt = 0, tu_signal = False, hooked = False,
       abort_fired = False, prompt_reacted = False, events = [], done_flag = False,
       phase = Ended, yielded = [], failure = None, delivered = [] \<rparr>"

definition add_turn :: "turn \<Rightarrow> runtime \<Rightarrow> runtime" where
  "add_turn tu rt = rt\<lparr> turns := (turns rt)(n_turns rt \<mapsto> tu), n_turns := n_turns rt + 1 \<rparr>"

definition runTurn :: "turn_input \<Rightarrow> runtime \<Rightarrow> runtime" where
  "runTurn inp rt =
     (if in_signal inp = Some True then
        add_turn ((blank_turn (in_key inp))
                    \<lparr> tu_signal := True, phase := AtYield (Done (JStr ''cancelled'')),
                      yielded := [Done (JStr ''cancelled'')] \<rparr>) rt
      else
        (case agents rt (in_key inp) of
           None \<Rightarrow>
             add_turn ((blank_turn (in_key inp))
                         \<lparr> tu_signal := (in_signal inp \<noteq> None),
                           failure := Some (AcpRuntimeError ''ACP_TURN_FAILED''
                                              ''No agent process for session.'') \<rparr>) rt
         | Some a \<Rightarrow>
             (case procs rt a of
                None \<Rightarrow> rt
              | Some agent \<Rightarrow>
                  (let rt1 = upd_agent a (\<lambda>ag. ag\<lparr> notifications := Some (n_turns rt) \<rparr>) rt;
                       (rid, rt2) = send a ''session/prompt''
                                     (JObj [(''sessionId'', sessionId agent),
                                            (''prompt'', JArr [JObj [(''type'', JStr ''text''),
                                                                    (''text'', JStr (in_text inp))]])])
                                     rt1
                   in add_turn (pump ((blank_turn (in_key inp))
                                  \<lparr> tu_agent := Some a, tu_prompt := rid,
                                    tu_signal := (in_signal inp \<noteq> None), hooked := True \<rparr>))
                        rt2))))"

text \<open>
  The consumer's \<open>next()\<close> on the turn \<open>t\<close>. When the generator leaves its loop,
  \<open>finally\<close> sets \<open>agent.notifications\<close> of its agent to \<open>null\<close>.
\<close>

definition next_event :: "nat \<Rightarrow> runtime \<Rightarrow> runtime" where
  "next_event t rt =
     (case turns rt t of
        None \<Rightarrow> rt
      | Some tu \<Rightarrow>
          (let tu' = resume tu;
               rt1 = rt\<lparr> turns := (turns rt)(t \<mapsto> tu') \<rparr>
           in case tu_agent tu of
                Some a \<Rightarrow>
                  if hooked tu \<and> \<not> hooked tu'
                  then upd_agent a (\<lambda>ag. ag\<lparr> notifications := None \<rparr>) rt1
                  else rt1
              | None \<Rightarrow> rt1))"

text \<open>
  The abort of the signal of the turn \<open>t\<close>: the listener runs once, while attached. It
  starts \<open>this.cancel\<close> for the handle and pushes the cancelled \<open>done\<close>.
\<close>

definition abort :: "nat \<Rightarrow> runtime \<Rightarrow> runtime" where
  "abort t rt =
     (case turns rt t of
        None \<Rightarrow> rt
      | Some tu \<Rightarrow>
          if tu_signal tu \<and> hooked tu \<and> \<not> abort_fired tu then
            upd_turn t (\<lambda>tu. onAbort (tu\<lparr> abort_fired := True \<rparr>)) (cancel (tu_key tu) rt)
          else rt)"

text \<open>
  The reaction of the turn \<open>t\<close> to its prompt promise: the \<open>then\<close> callback or the
  \<open>catch\<close> callback, once.
\<close>

definition react_prompt :: "nat \<Rightarrow> runtime \<Rightarrow> runtime" where
  "react_prompt t rt =
     (case turns rt t of
        None \<Rightarrow> rt
      | Some tu \<Rightarrow>
          (case tu_agent tu of
             None \<Rightarrow> rt
           | Some a \<Rightarrow>
               if prompt_reacted tu then rt
               else (case promise_of rt a (tu_prompt tu) of
                       Unsettled \<Rightarrow> rt
                     | Fulfilled res \<Rightarrow>
                         upd_turn t (\<lambda>tu. prompt_then res (tu\<lparr> prompt_reacted := True \<rparr>)) rt
                     | Rejected err \<Rightarrow>
                         upd_turn t (\<lambda>tu. prompt_catch err (tu\<lparr> prompt_reacted := True \<rparr>)) rt)))"

text \<open>
  The microtasks that follow a handler: the continuations of the initializations and the
  reactions of the turns whose awaited promise is settled, then the generators that a
  push woke.
\<close>

definition microtasks :: "runtime \<Rightarrow> runtime" where
  "microtasks rt =
     (let rt1 = fold resume_init [0..<n_tasks rt] rt;
          rt2 = fold react_prompt [0..<n_turns rt1] rt1
      in fold (\<lambda>t. upd_turn t wake) [0..<n_turns rt2] rt2)"

text \<open>One stdout line of the child of the agent \<open>a\<close>: the handler, then the sink.\<close>

definition stdout_line :: "nat \<Rightarrow> json option \<Rightarrow> runtime \<Rightarrow> runtime" where
  "stdout_line a parsed rt =
     (case procs rt a of
        None \<Rightarrow> rt
      | Some ag \<Rightarrow>
          (let (ag', ev) = on_line parsed ag;
               rt1 = rt\<lparr> procs := (procs rt)(a \<mapsto> ag') \<rparr>
           in case (ev, notifications ag') of
                (Some e, Some t) \<Rightarrow> upd_turn t (sink e) rt1
              | _ \<Rightarrow> rt1))"

text \<open>
  The \<open>close\<close> and \<open>error\<close> handlers that \<open>spawnAgent\<close> registers on the child of
  the agent \<open>a\<close>: reject and clear the pending entries, then delete the registry entry of
  the key if it still is this agent.
\<close>

definition unregister :: "nat \<Rightarrow> runtime \<Rightarrow> runtime" where
  "unregister a rt =
     (case procs rt a of
        None \<Rightarrow> rt
      | Some ag \<Rightarrow>
          if agents rt (key_of ag) = Some a
          then rt\<lparr> agents := (agents rt)(key_of ag := None) \<rparr>
          else rt)"

definition child_close_handler :: "nat \<Rightarrow> runtime \<Rightarrow> runtime" where
  "child_close_handler a rt =
     unregister a (upd_agent a (reject_all (Error ''agent process exited'')) rt)"

definition child_error_handler :: "nat \<Rightarrow> js_error \<Rightarrow> runtime \<Rightarrow> runtime" where
  "child_error_handler a err rt = unregister a (upd_agent a (reject_all err) rt)"

text \<open>The \<open>onClose\<close> listener of the turn \<open>t\<close>, if it is attached to the child of \<open>a\<close>.\<close>

definition turn_close_listener :: "nat \<Rightarrow> nat \<Rightarrow> runtime \<Rightarrow> runtime" where
  "turn_close_listener a t rt =
     upd_turn t (\<lambda>tu. if tu_agent tu = Some a \<and> hooked tu then onClose tu else tu) rt"

text \<open>
  What can happen to the runtime: a chunk of stdout lines of a child, the close or error
  event of a child, a timer, a write callback, the abort of a turn's signal, the
  \<open>next()\<close> of a turn's consumer, and the calls of the host. Each handler runs to its
  end, then the microtasks run. \<open>closeAll\<close> is \<open>close\<close> for every registered key.
\<close>

datatype happening =
    Stdout nat "json option list"
  | ChildClose nat
  | ChildError nat js_error
  | Timeout nat nat
  | Written nat nat "js_error option"
  | Abort nat
  | Next nat
  | EnsureSession ensure_input
  | RunTurn turn_input
  | CloseSession string
  | Cancel string
  | SetMode string string

fun handler :: "happening \<Rightarrow> runtime \<Rightarrow> runtime" where
  "handler (Stdout a ls) rt = fold (stdout_line a) ls rt"
| "handler (ChildClose a) rt =
     fold (turn_close_listener a) [0..<n_turns rt] (child_close_handler a rt)"
| "handler (ChildError a err) rt = child_error_handler a err rt"
| "handler (Timeout a rid) rt = upd_agent a (on_timeout rid) rt"
| "handler (Written a rid err) rt = upd_agent a (on_written rid err) rt"
| "handler (Abort t) rt = abort t rt"
| "handler (Next t) rt = next_event t rt"
| "handler (EnsureSession inp) rt = snd (ensureSession inp rt)"
| "handler (RunTurn inp) rt = runTurn inp rt"
| "handler (CloseSession key) rt = close key rt"
| "handler (Cancel key) rt = cancel key rt"
| "handler (SetMode key mode) rt = setMode key mode rt"

definition step :: "happening \<Rightarrow> runtime \<Rightarrow> runtime" where
  "step h rt = microtasks (handler h rt)"

definition run :: "happening list \<Rightarrow> runtime \<Rightarrow> runtime" where
  "run hs rt = fold step hs rt"

subsection \<open>The scripted agent of the test suite\<close>

text \<open>
  The configuration the tests construct the runtime with, their session input, the lines
  the mock agent of the tests writes, and the happenings of a handshake with it.
\<close>

definition test_config :: config where
  "test_config = \<lparr> cfg_command = ''node'', cfg_args = [''mock-agent.cjs''], cfg_cwd = ''/tmp/acp-test'' \<rparr>"

definition s1_input :: ensure_input where
  "s1_input = \<lparr> in_sessionKey = ''s1'', in_cwd = None \<rparr>"

definition result_line :: "int \<Rightarrow> json \<Rightarrow> json option" where
  "result_line i r = Some (JObj [(''jsonrpc'', JStr ''2.0''), (''id'', JNum i), (''result'', r)])"

definition error_line :: "int \<Rightarrow> json \<Rightarrow> json option" where
  "error_line i e = Some (JObj [(''jsonrpc'', JStr ''2.0''), (''id'', JNum i), (''error'', e)])"

definition hello_chunk :: "json option" where
  "hello_chunk =
     Some (JObj [(''jsonrpc'', JStr ''2.0''), (''method'', JStr ''session/update''),
                 (''params'', JObj [(''update'',
                    JObj [(''sessionUpdate'', JStr ''agent_message_chunk''),
                          (''content'', JObj [(''type'', JStr ''text''),
                                              (''text'', JStr ''hello'')])])])])"

definition handshake :: "ensure_input \<Rightarrow> happening list" where
  "handshake inp =
     [EnsureSession inp,
      Stdout 0 [result_line 1 (JObj [(''protocolVersion'', JNum 1)])],
      Stdout 0 [result_line 2 (JObj [(''sessionId'', JStr ''mock-session-1'')])]]"


definition s1_turn_aborted :: turn_input where
  "s1_turn_aborted = \<lparr> in_key = ''s1'', in_text = ''hello'', in_signal = Some True \<rparr>"

subsection \<open>Invariants of the turn engine\<close>

text \<open>
  The events that do not end a turn. The mapper produces only such events; the hooks of
  \<open>runTurn\<close> (\<open>onClose\<close>, \<open>onAbort\<close>, the reactions to the prompt promise) push
  only terminal ones.
\<close>

definition ordinary :: "event \<Rightarrow> bool" where
  "ordinary e \<longleftrightarrow> \<not> terminal e"

text \<open>
  What holds of a turn at every moment, by the suspension point of its generator: while it
  awaits, nothing terminal has been yielded; at a yield, the event yielded last is the one
  it is suspended at and nothing before it is terminal; once it has ended, it has either
  thrown without yielding or yielded a terminal event last. In all cases the non-terminal
  events yielded or still buffered are exactly the events the sink received, in order.
\<close>

definition turn_inv :: "turn \<Rightarrow> bool" where
  "turn_inv tu \<longleftrightarrow>
     (case phase tu of
        Waiting \<Rightarrow>
          list_all ordinary (yielded tu) \<and> \<not> done_flag tu \<and> failure tu = None
          \<and> tu_agent tu \<noteq> None
      | AtYield e \<Rightarrow>
          yielded tu \<noteq> [] \<and> last (yielded tu) = e \<and> list_all ordinary (butlast (yielded tu))
          \<and> \<not> done_flag tu \<and> failure tu = None \<and> (tu_agent tu = None \<longrightarrow> terminal e)
      | Ended \<Rightarrow>
          (if failure tu = None
           then yielded tu \<noteq> [] \<and> terminal (last (yielded tu))
                \<and> list_all ordinary (butlast (yielded tu))
           else yielded tu = []))
   \<and> filter ordinary (yielded tu @ events tu) = delivered tu"

text \<open>
  The three ways a turn changes. \<open>pushes\<close> covers the sink and the hooks: the
  generator stays where it is and events are appended to the buffer, the sink's also to
  \<open>delivered\<close>. The other two are the consumer's \<open>next()\<close> and the wake-up of an
  awaiting generator.
\<close>

definition pushes :: "turn \<Rightarrow> turn \<Rightarrow> bool" where
  "pushes tu tu' \<longleftrightarrow>
     yielded tu' = yielded tu \<and> phase tu' = phase tu \<and> done_flag tu' = done_flag tu
     \<and> tu_agent tu' = tu_agent tu \<and> failure tu' = failure tu \<and> hooked tu' = hooked tu
     \<and> (\<exists>es. events tu' = events tu @ es \<and> delivered tu' = delivered tu @ filter ordinary es)"

inductive turn_op :: "turn \<Rightarrow> turn \<Rightarrow> bool" where
  by_push: "pushes tu tu' \<Longrightarrow> turn_op tu tu'"
| by_resume: "turn_op tu (resume tu)"
| by_wake: "turn_op tu (wake tu)"

text \<open>
  The states \<open>runTurn\<close> creates a turn in: suspended at the yield of the pre-aborted
  short-circuit, ended by the throw for an unknown session, or awaiting with its hooks
  attached.
\<close>

definition initial_turn :: "turn \<Rightarrow> bool" where
  "initial_turn tu \<longleftrightarrow>
     events tu = [] \<and> delivered tu = [] \<and> \<not> done_flag tu
     \<and> (phase tu = AtYield (Done (JStr ''cancelled'')) \<and> yielded tu = [Done (JStr ''cancelled'')]
          \<and> tu_agent tu = None \<and> failure tu = None \<and> \<not> hooked tu
        \<or> phase tu = Ended \<and> yielded tu = [] \<and> failure tu \<noteq> None
        \<or> phase tu = Waiting \<and> yielded tu = [] \<and> tu_agent tu \<noteq> None \<and> failure tu = None)"

text \<open>The turn of a call whose signal was aborted from the start, at any later moment.\<close>

definition cancelled_turn :: "turn \<Rightarrow> bool" where
  "cancelled_turn tu \<longleftrightarrow>
     tu_agent tu = None \<and> \<not> hooked tu \<and> failure tu = None
     \<and> yielded tu = [Done (JStr ''cancelled'')] \<and> phase tu \<noteq> Waiting"

text \<open>
  Turn references are allocated in order (\<open>turns_fresh\<close>), and between two states of
  the runtime every turn changes by the three operations only, a new turn starting in an
  initial state (\<open>evolves\<close>).
\<close>

definition turns_fresh :: "runtime \<Rightarrow> bool" where
  "turns_fresh rt \<longleftrightarrow> (\<forall>t. n_turns rt \<le> t \<longrightarrow> turns rt t = None)"

definition evolved :: "turn option \<Rightarrow> turn option \<Rightarrow> bool" where
  "evolved x y \<longleftrightarrow>
     (case x of
        Some tu \<Rightarrow> (\<exists>tu'. y = Some tu' \<and> turn_op\<^sup>*\<^sup>* tu tu')
      | None \<Rightarrow> (case y of None \<Rightarrow> True
                 | Some tu' \<Rightarrow> (\<exists>tu0. initial_turn tu0 \<and> turn_op\<^sup>*\<^sup>* tu0 tu')))"

definition evolves :: "runtime \<Rightarrow> runtime \<Rightarrow> bool" where
  "evolves rt rt' \<longleftrightarrow>
     (turns_fresh rt \<longrightarrow> turns_fresh rt' \<and> (\<forall>t. evolved (turns rt t) (turns rt' t)))"
section \<open>Properties\<close>

subsection \<open>The notification mapper\<close>

lemma mapper_no_update:
  "js_get params ''update'' = None \<Longrightarrow> mapNotificationToEvent params = None"
  by (simp add: mapNotificationToEvent_def)

lemma mapper_falsy_update:
  "js_get params ''update'' = Some u \<Longrightarrow> \<not> truthy u \<Longrightarrow> mapNotificationToEvent params = None"
  by (simp add: mapNotificationToEvent_def)

lemma mapper_not_terminal:
  "mapNotificationToEvent params = Some e \<Longrightarrow> \<not> terminal e"
  by (auto simp: mapNotificationToEvent_def split: option.splits json.splits if_splits)







subsection \<open>The transport of one agent\<close>

lemma settle_idem [simp]: "settle p (settle p x) = settle p x"
  by (simp add: settle_def)

lemma settle_settled [simp]: "x \<noteq> Unsettled \<Longrightarrow> settle p x = x"
  by (simp add: settle_def)

lemma settle_Unsettled [simp]: "settle p Unsettled = p"
  by (simp add: settle_def)

lemma known_update [simp]:
  "known (ag\<lparr> pending := ps \<rparr>) r = known ag r"
  "known (ag\<lparr> written := ws \<rparr>) r = known ag r"
  "known (ag\<lparr> notifications := n \<rparr>) r = known ag r"
  "known (ag\<lparr> kills := ks \<rparr>) r = known ag r"
  by (simp_all add: known_def)

lemma promise_in_update [simp]:
  "promise_in (ag\<lparr> pending := ps \<rparr>) r = promise_in ag r"
  "promise_in (ag\<lparr> written := ws \<rparr>) r = promise_in ag r"
  "promise_in (ag\<lparr> notifications := n \<rparr>) r = promise_in ag r"
  "promise_in (ag\<lparr> kills := ks \<rparr>) r = promise_in ag r"
  by (simp_all add: promise_in_def)

lemma timer_in_update [simp]:
  "timer_in (ag\<lparr> pending := ps \<rparr>) r = timer_in ag r"
  "timer_in (ag\<lparr> written := ws \<rparr>) r = timer_in ag r"
  "timer_in (ag\<lparr> notifications := n \<rparr>) r = timer_in ag r"
  "timer_in (ag\<lparr> kills := ks \<rparr>) r = timer_in ag r"
  by (simp_all add: timer_in_def)

lemma clearTimeout_fields [simp]:
  "pending (clearTimeout r ag) = pending ag"
  "nextId (clearTimeout r ag) = nextId ag"
  "written (clearTimeout r ag) = written ag"
  "promise_in (clearTimeout r ag) r' = promise_in ag r'"
  "known (clearTimeout r ag) r' = known ag r'"
  by (auto simp: clearTimeout_def promise_in_def known_def split: option.splits timer.splits)

lemma settle_call_fields [simp]:
  "pending (settle_call r p ag) = pending ag"
  "nextId (settle_call r p ag) = nextId ag"
  "written (settle_call r p ag) = written ag"
  "known (settle_call r p ag) r' = known ag r'"
  by (auto simp: settle_call_def known_def split: option.splits)

lemma promise_in_settle_call:
  "promise_in (settle_call r p ag) r' =
     (if r' = r \<and> known ag r then settle p (promise_in ag r) else promise_in ag r')"
  by (auto simp: settle_call_def promise_in_def known_def split: option.splits)

lemma timer_in_settle_call [simp]: "timer_in (settle_call r p ag) r' = timer_in ag r'"
  by (auto simp: settle_call_def timer_in_def split: option.splits)

lemma entry_reject_fields [simp]:
  "pending (entry_reject r e ag) = pending ag"
  "nextId (entry_reject r e ag) = nextId ag"
  "written (entry_reject r e ag) = written ag"
  "known (entry_reject r e ag) r' = known ag r'"
  by (simp_all add: entry_reject_def)

lemma entry_resolve_fields [simp]:
  "pending (entry_resolve r v ag) = pending ag"
  "nextId (entry_resolve r v ag) = nextId ag"
  "written (entry_resolve r v ag) = written ag"
  "known (entry_resolve r v ag) r' = known ag r'"
  by (simp_all add: entry_resolve_def)

lemma promise_in_entry_reject:
  "promise_in (entry_reject r e ag) r' =
     (if r' = r \<and> known ag r then settle (Rejected e) (promise_in ag r) else promise_in ag r')"
  by (simp add: entry_reject_def promise_in_settle_call)

lemma promise_in_entry_resolve:
  "promise_in (entry_resolve r v ag) r' =
     (if r' = r \<and> known ag r then settle (Fulfilled v) (promise_in ag r) else promise_in ag r')"
  by (simp add: entry_resolve_def promise_in_settle_call)

lemma fold_reject_fields [simp]:
  "pending (fold (\<lambda>r. entry_reject r e) rs ag) = pending ag"
  "nextId (fold (\<lambda>r. entry_reject r e) rs ag) = nextId ag"
  "written (fold (\<lambda>r. entry_reject r e) rs ag) = written ag"
  "known (fold (\<lambda>r. entry_reject r e) rs ag) r' = known ag r'"
  by (induction rs arbitrary: ag; simp)+

lemma promise_in_fold_reject:
  "promise_in (fold (\<lambda>r. entry_reject r e) rs ag) r' =
     (if r' \<in> set rs \<and> known ag r' then settle (Rejected e) (promise_in ag r')
      else promise_in ag r')"
  by (induction rs arbitrary: ag) (auto simp: promise_in_entry_reject)

lemma reject_all_fields [simp]:
  "pending (reject_all e ag) = []"
  "nextId (reject_all e ag) = nextId ag"
  "written (reject_all e ag) = written ag"
  "known (reject_all e ag) r' = known ag r'"
  by (simp_all add: reject_all_def)

lemma promise_in_reject_all:
  "promise_in (reject_all e ag) r' =
     (if r' \<in> set (pending ag) \<and> known ag r' then settle (Rejected e) (promise_in ag r')
      else promise_in ag r')"
  by (simp add: reject_all_def promise_in_fold_reject)

lemma on_timeout_fields [simp]:
  "nextId (on_timeout r ag) = nextId ag"
  "written (on_timeout r ag) = written ag"
  "known (on_timeout r ag) r' = known ag r'"
  by (auto simp: on_timeout_def known_def settle_call_def split: option.splits timer.splits)

lemma pending_on_timeout:
  "pending (on_timeout r ag) =
     (if \<exists>ms. timer_in ag r = Some (Armed ms) then removeAll r (pending ag) else pending ag)"
  by (auto simp: on_timeout_def timer_in_def split: option.splits timer.splits)

lemma promise_in_on_timeout:
  "promise_in (on_timeout r ag) r' =
     (if r' = r \<and> (\<exists>ms. timer_in ag r = Some (Armed ms))
      then settle (Rejected (Error (''JSON-RPC request timed out: '' @ req_method (the (calls ag r)))))
             (promise_in ag r)
      else promise_in ag r')"
  by (auto simp: on_timeout_def timer_in_def promise_in_def settle_call_def
      split: option.splits timer.splits)

lemma on_written_fields [simp]:
  "nextId (on_written r err ag) = nextId ag"
  "written (on_written r err ag) = written ag"
  "known (on_written r err ag) r' = known ag r'"
  by (auto simp: on_written_def split: option.splits)

lemma pending_on_written:
  "pending (on_written r err ag) = (if err = None then pending ag else removeAll r (pending ag))"
  by (auto simp: on_written_def split: option.splits)

lemma promise_in_on_written:
  "promise_in (on_written r err ag) r' =
     (case err of None \<Rightarrow> promise_in ag r'
      | Some e \<Rightarrow> if r' = r \<and> known ag r then settle (Rejected e) (promise_in ag r)
                  else promise_in ag r')"
  by (auto simp: on_written_def promise_in_settle_call split: option.splits)


lemma sendRequest_fields [simp]:
  "fst (sendRequest m p ag) = nextId ag"
  "nextId (snd (sendRequest m p ag)) = nextId ag + 1"
  "written (snd (sendRequest m p ag)) = written ag @ [request_message (nextId ag) m p]"
  "pending (snd (sendRequest m p ag)) =
     (if nextId ag \<in> set (pending ag) then pending ag else pending ag @ [nextId ag])"
  "known (snd (sendRequest m p ag)) r = (r = nextId ag \<or> known ag r)"
  "promise_in (snd (sendRequest m p ag)) r = (if r = nextId ag then Unsettled else promise_in ag r)"
  "timer_in (snd (sendRequest m p ag)) r =
     (if r = nextId ag
      then (if m \<in> CONTROL_METHODS then Some (Armed CONTROL_TIMEOUT_MS) else None)
      else timer_in ag r)"
  by (simp_all add: sendRequest_def Let_def known_def promise_in_def timer_in_def)

lemma js_in_method_cases:
  "js_in ''id'' msg = Some b \<Longrightarrow> js_in ''method'' msg \<noteq> Some True \<Longrightarrow> js_in ''method'' msg = Some False"
  by (cases msg) auto

lemma on_line_cases [case_names same notify decline resolve reject]:
  assumes "on_line l ag = (ag, None) \<Longrightarrow> P"
    and "\<And>e msg params. l = Some msg \<Longrightarrow> js_get msg ''params'' = Some params
           \<Longrightarrow> mapNotificationToEvent params = Some e \<Longrightarrow> on_line l ag = (ag, Some e) \<Longrightarrow> P"
    and "\<And>msg i. l = Some msg \<Longrightarrow> js_get msg ''id'' = Some i \<Longrightarrow> i \<noteq> JNull
           \<Longrightarrow> js_in ''method'' msg = Some True
           \<Longrightarrow> on_line l ag = (ag\<lparr> written := written ag @ [method_not_supported i] \<rparr>, None) \<Longrightarrow> P"
    and "\<And>msg n. l = Some msg \<Longrightarrow> js_get msg ''id'' = Some (JNum (int n))
           \<Longrightarrow> js_in ''method'' msg = Some False \<Longrightarrow> n \<in> set (pending ag)
           \<Longrightarrow> on_line l ag = (entry_resolve n (js_get msg ''result'')
                                   (ag\<lparr> pending := removeAll n (pending ag) \<rparr>), None) \<Longrightarrow> P"
    and "\<And>msg n. l = Some msg \<Longrightarrow> js_get msg ''id'' = Some (JNum (int n))
           \<Longrightarrow> js_in ''method'' msg = Some False \<Longrightarrow> n \<in> set (pending ag)
           \<Longrightarrow> on_line l ag = (entry_reject n (RpcError (the (js_get msg ''error'')))
                                   (ag\<lparr> pending := removeAll n (pending ag) \<rparr>), None) \<Longrightarrow> P"
  shows P
proof (cases l)
  case None
  then show ?thesis using assms(1) by (simp add: on_line_def)
next
  case (Some msg)
  show ?thesis
  proof (cases "js_in ''id'' msg")
    case None
    then show ?thesis using Some assms(1) by (simp add: on_line_def)
  next
    case hasid: (Some b)
    show ?thesis
    proof (cases "b \<and> js_get msg ''id'' \<noteq> None \<and> js_get msg ''id'' \<noteq> Some JNull")
      case True
      then obtain i where i: "js_get msg ''id'' = Some i" "i \<noteq> JNull" by auto
      show ?thesis
      proof (cases "js_in ''method'' msg = Some True")
        case True
        then show ?thesis
          using Some hasid i \<open>b \<and> _\<close> assms(3) [of msg i] by (simp add: on_line_def)
      next
        case False
        then have nometh: "js_in ''method'' msg = Some False"
          using hasid js_in_method_cases by blast
        show ?thesis
        proof (cases "\<exists>n. i = JNum (int n) \<and> n \<in> set (pending ag)")
          case True
          then obtain n where n: "i = JNum (int n)" "n \<in> set (pending ag)" by blast
          show ?thesis
          proof (cases "js_in ''error'' msg = Some True")
            case True
            then show ?thesis
              using Some hasid i n nometh \<open>b \<and> _\<close> assms(5) [of msg n] by (simp add: on_line_def)
          next
            case False
            then show ?thesis
              using Some hasid i n nometh \<open>b \<and> _\<close> assms(4) [of msg n] by (simp add: on_line_def)
          qed
        next
          case False
          then have "on_line l ag = (ag, None)"
            using Some hasid i nometh \<open>b \<and> _\<close>
            by (cases i) (auto simp: on_line_def dest: spec [of _ "nat _"])
          then show ?thesis using assms(1) by simp
        qed
      qed
    next
      case False
      then have "on_line l ag = (ag, None) \<or>
         (\<exists>e params. js_get msg ''params'' = Some params \<and> mapNotificationToEvent params = Some e
            \<and> on_line l ag = (ag, Some e))"
        using Some hasid
        by (cases "mapNotificationToEvent (the (js_get msg ''params''))")
           (auto simp: on_line_def split: option.splits)
      then show ?thesis using assms(1) assms(2) [OF Some] by blast
    qed
  qed
qed


lemma wf_new_agent: "wf_agent (new_agent key cmd argv dir)"
  by (simp add: wf_agent_def new_agent_def known_def)

lemma act_line_cases:
  obtains (same) "act (Line l) ag = ag"
  | (written) w where "act (Line l) ag = ag\<lparr> written := written ag @ [w] \<rparr>"
  | (resolve) msg n where "l = Some msg" "js_get msg ''id'' = Some (JNum (int n))"
      "js_in ''method'' msg = Some False" "n \<in> set (pending ag)"
      "act (Line l) ag = entry_resolve n (js_get msg ''result'') (ag\<lparr> pending := removeAll n (pending ag) \<rparr>)"
  | (reject) msg n where "l = Some msg" "js_get msg ''id'' = Some (JNum (int n))"
      "js_in ''method'' msg = Some False" "n \<in> set (pending ag)"
      "act (Line l) ag = entry_reject n (RpcError (the (js_get msg ''error''))) (ag\<lparr> pending := removeAll n (pending ag) \<rparr>)"
  by (cases l ag rule: on_line_cases) auto

lemma wf_act: "wf_agent ag \<Longrightarrow> wf_agent (act x ag)"
proof (cases x)
  case (Send m p)
  assume "wf_agent ag"
  then show ?thesis using Send by (fastforce simp: wf_agent_def)
next
  case (Line l)
  assume wf: "wf_agent ag"
  show ?thesis
  proof (cases l ag rule: act_line_cases)
    case same
    then show ?thesis using wf Line by simp
  next
    case (written w)
    then show ?thesis using wf Line by (simp add: wf_agent_def)
  next
    case (resolve msg n)
    then show ?thesis using wf Line
      by (auto simp: wf_agent_def promise_in_entry_resolve distinct_removeAll)
  next
    case (reject msg n)
    then show ?thesis using wf Line
      by (auto simp: wf_agent_def promise_in_entry_reject distinct_removeAll)
  qed
next
  case (TimerFires r)
  assume "wf_agent ag"
  then show ?thesis using TimerFires
    by (auto simp: wf_agent_def pending_on_timeout promise_in_on_timeout distinct_removeAll)
next
  case (WriteDone r err)
  assume "wf_agent ag"
  then show ?thesis using WriteDone
    by (auto simp: wf_agent_def pending_on_written promise_in_on_written distinct_removeAll
          split: option.splits)
next
  case ProcClose
  assume "wf_agent ag"
  then show ?thesis using ProcClose by (simp add: wf_agent_def)
next
  case (ProcError e)
  assume "wf_agent ag"
  then show ?thesis using ProcError by (simp add: wf_agent_def)
qed


lemma acts_simps [simp]:
  "acts [] ag = ag"
  "acts (x # xs) ag = acts xs (act x ag)"
  "acts (xs @ ys) ag = acts ys (acts xs ag)"
  by (simp_all add: acts_def)









subsection \<open>The stdout line handler\<close>

lemma js_get_in: "js_get (JObj kvs) k = Some v \<Longrightarrow> js_in k (JObj kvs) = Some True"
proof -
  assume "js_get (JObj kvs) k = Some v"
  then have "map_of (rev kvs) k = Some v" by simp
  then have "(k, v) \<in> set (rev kvs)" by (rule map_of_SomeD)
  then have "k \<in> fst ` set kvs" by force
  then show ?thesis by simp
qed

lemma stdout_line_same:
  "procs rt a = Some ag \<Longrightarrow> on_line l ag = (ag, None) \<Longrightarrow> stdout_line a l rt = rt"
  by (simp add: stdout_line_def fun_upd_idem)

text \<open>
  Claim C6. A stdout line that parses to a JSON object with a non-null \<open>id\<close> and a
  \<open>method\<close> member is answered with exactly the JSON-RPC error -32601 for that id,
  written to stdin; nothing is handed to the notification sink, and no pending entry or
  promise changes. A response (no \<open>method\<close> member) whose id matches no pending entry
  leaves the whole runtime as it was.
\<close>

theorem line_handler_declines_requests:
  assumes "js_get (JObj kvs) ''id'' = Some i" and "i \<noteq> JNull" and "procs rt a = Some ag"
  shows "(''method'' \<in> fst ` set kvs \<longrightarrow>
            on_line (Some (JObj kvs)) ag =
              (ag\<lparr> written := written ag @
                   [JObj [(''jsonrpc'', JStr ''2.0''), (''id'', i),
                          (''error'', JObj [(''code'', JNum (- 32601)),
                             (''message'', JStr ''Method not supported by this client'')])]] \<rparr>,
               None)
            \<and> turns (stdout_line a (Some (JObj kvs)) rt) = turns rt
            \<and> pending (fst (on_line (Some (JObj kvs)) ag)) = pending ag
            \<and> calls (fst (on_line (Some (JObj kvs)) ag)) = calls ag)
       \<and> (''method'' \<notin> fst ` set kvs \<and> (\<forall>n. i = JNum (int n) \<longrightarrow> n \<notin> set (pending ag)) \<longrightarrow>
            on_line (Some (JObj kvs)) ag = (ag, None)
            \<and> stdout_line a (Some (JObj kvs)) rt = rt)"
proof (intro conjI impI)
  have hasid: "js_in ''id'' (JObj kvs) = Some True" using assms(1) by (rule js_get_in)
  {
    assume m: "''method'' \<in> fst ` set kvs"
    show d: "on_line (Some (JObj kvs)) ag =
              (ag\<lparr> written := written ag @
                   [JObj [(''jsonrpc'', JStr ''2.0''), (''id'', i),
                          (''error'', JObj [(''code'', JNum (- 32601)),
                             (''message'', JStr ''Method not supported by this client'')])]] \<rparr>,
               None)"
      using hasid assms(1,2) m by (simp add: on_line_def method_not_supported_def)
    show "turns (stdout_line a (Some (JObj kvs)) rt) = turns rt"
      using assms(3) d by (simp add: stdout_line_def)
    show "pending (fst (on_line (Some (JObj kvs)) ag)) = pending ag" using d by simp
    show "calls (fst (on_line (Some (JObj kvs)) ag)) = calls ag" using d by simp
  }
  {
    assume u: "''method'' \<notin> fst ` set kvs \<and> (\<forall>n. i = JNum (int n) \<longrightarrow> n \<notin> set (pending ag))"
    show s: "on_line (Some (JObj kvs)) ag = (ag, None)"
    proof (cases i)
      case (JNum n)
      then have "0 \<le> n \<Longrightarrow> nat n \<notin> set (pending ag)" using u by (auto dest: spec [of _ "nat n"])
      then show ?thesis using hasid assms(1,2) u JNum by (auto simp: on_line_def)
    qed (use hasid assms(1,2) u in \<open>auto simp: on_line_def\<close>)
    show "stdout_line a (Some (JObj kvs)) rt = rt"
      using assms(3) s by (rule stdout_line_same)
  }
qed


theorem line_handler_declines_requests_witness:
  "on_line (Some (JObj [(''jsonrpc'', JStr ''2.0''), (''id'', JNum 7),
                        (''method'', JStr ''session/request_permission''), (''params'', JObj [])]))
     (snd (sendRequest ''session/prompt'' JNull (new_agent ''s1'' ''agent'' [] ''/w'')))
   = ((snd (sendRequest ''session/prompt'' JNull (new_agent ''s1'' ''agent'' [] ''/w'')))
        \<lparr> written := [request_message 1 ''session/prompt'' JNull,
             JObj [(''jsonrpc'', JStr ''2.0''), (''id'', JNum 7),
                   (''error'', JObj [(''code'', JNum (- 32601)),
                      (''message'', JStr ''Method not supported by this client'')])]] \<rparr>,
      None)
   \<and> stdout_line 0 (Some (JObj [(''jsonrpc'', JStr ''2.0''), (''id'', JNum 99), (''result'', JObj [])]))
       ((new_runtime \<lparr> cfg_command = ''agent'', cfg_args = [], cfg_cwd = ''/w'' \<rparr>)
          \<lparr> procs := [0 \<mapsto> snd (sendRequest ''session/prompt'' JNull (new_agent ''s1'' ''agent'' [] ''/w''))] \<rparr>)
     = (new_runtime \<lparr> cfg_command = ''agent'', cfg_args = [], cfg_cwd = ''/w'' \<rparr>)
          \<lparr> procs := [0 \<mapsto> snd (sendRequest ''session/prompt'' JNull (new_agent ''s1'' ''agent'' [] ''/w''))] \<rparr>"
proof -
  let ?ag = "snd (sendRequest ''session/prompt'' JNull (new_agent ''s1'' ''agent'' [] ''/w''))"
  let ?rt = "(new_runtime \<lparr> cfg_command = ''agent'', cfg_args = [], cfg_cwd = ''/w'' \<rparr>)
          \<lparr> procs := [0 \<mapsto> ?ag] \<rparr>"
  let ?k1 = "[(''jsonrpc'', JStr ''2.0''), (''id'', JNum 7),
              (''method'', JStr ''session/request_permission''), (''params'', JObj [])]"
  let ?k2 = "[(''jsonrpc'', JStr ''2.0''), (''id'', JNum 99), (''result'', JObj [])]"
  have p: "procs ?rt 0 = Some ?ag" by simp
  have w: "written ?ag = [request_message 1 ''session/prompt'' JNull]"
    by (simp add: new_agent_def)
  have pe: "pending ?ag = [1]" by (simp add: new_agent_def)
  have 1: "js_get (JObj ?k1) ''id'' = Some (JNum 7)" by simp
  have 2: "js_get (JObj ?k2) ''id'' = Some (JNum 99)" by simp
  have a: "on_line (Some (JObj ?k1)) ?ag =
      (?ag\<lparr> written := written ?ag @ [JObj [(''jsonrpc'', JStr ''2.0''), (''id'', JNum 7),
                   (''error'', JObj [(''code'', JNum (- 32601)),
                      (''message'', JStr ''Method not supported by this client'')])]] \<rparr>, None)"
    using line_handler_declines_requests [OF 1 _ p] by simp
  have b: "stdout_line 0 (Some (JObj ?k2)) ?rt = ?rt"
    using line_handler_declines_requests [OF 2 _ p] pe by simp
  show ?thesis using a b unfolding w by simp
qed

subsection \<open>Timeouts and the life of a pending entry\<close>

lemma method_in_update [simp]:
  "method_in (ag\<lparr> pending := ps \<rparr>) r = method_in ag r"
  "method_in (ag\<lparr> written := ws \<rparr>) r = method_in ag r"
  by (simp_all add: method_in_def)


lemma method_in_clearTimeout [simp]: "method_in (clearTimeout r ag) r' = method_in ag r'"
  by (auto simp: clearTimeout_def method_in_def split: option.splits timer.splits)

lemma method_in_settle_call [simp]: "method_in (settle_call r p ag) r' = method_in ag r'"
  by (auto simp: settle_call_def method_in_def split: option.splits)


lemma method_in_entry [simp]:
  "method_in (entry_reject r e ag) r' = method_in ag r'"
  "method_in (entry_resolve r v ag) r' = method_in ag r'"
  by (simp_all add: entry_reject_def entry_resolve_def)


lemma method_in_fold_reject [simp]:
  "method_in (fold (\<lambda>r. entry_reject r e) rs ag) r' = method_in ag r'"
  by (induction rs arbitrary: ag) simp_all


lemma method_in_reject_all [simp]: "method_in (reject_all e ag) r' = method_in ag r'"
  by (simp add: reject_all_def)


lemma method_in_on_timeout [simp]: "method_in (on_timeout r ag) r' = method_in ag r'"
  by (auto simp: on_timeout_def method_in_def settle_call_def split: option.splits timer.splits)



lemma method_in_on_written [simp]: "method_in (on_written r err ag) r' = method_in ag r'"
  by (auto simp: on_written_def split: option.splits)

lemma method_in_sendRequest [simp]:
  "method_in (snd (sendRequest m p ag)) r = (if r = nextId ag then Some m else method_in ag r)"
  by (simp add: sendRequest_def method_in_def Let_def)











lemma new_agent_fields [simp]:
  "nextId (new_agent key cmd argv dir) = 1"
  "pending (new_agent key cmd argv dir) = []"
  "written (new_agent key cmd argv dir) = []"
  "known (new_agent key cmd argv dir) r = False"
  "promise_in (new_agent key cmd argv dir) r = Unsettled"
  "timer_in (new_agent key cmd argv dir) r = None"
  by (simp_all add: new_agent_def known_def promise_in_def timer_in_def)

lemma removes_listed: "removes x rid \<longleftrightarrow> listed_trigger x rid \<or> (\<exists>e. x = ProcError e)"
  by (cases "(x, rid)" rule: listed_trigger.cases) auto








subsection \<open>The session registry\<close>

lemma unregister_agents:
  "procs rt a = Some ag \<Longrightarrow>
   agents (unregister a rt) k =
     (if k = key_of ag \<and> agents rt k = Some a then None else agents rt k)"
  by (auto simp: unregister_def)

lemma unregister_others [simp]:
  "procs (unregister a rt) = procs rt" "turns (unregister a rt) = turns rt"
  "tasks (unregister a rt) = tasks rt" "initializing (unregister a rt) = initializing rt"
  "n_procs (unregister a rt) = n_procs rt" "n_turns (unregister a rt) = n_turns rt"
  "n_tasks (unregister a rt) = n_tasks rt" "config (unregister a rt) = config rt"
  by (simp_all add: unregister_def split: option.splits)

lemma upd_agent_fields [simp]:
  "agents (upd_agent a f rt) = agents rt" "turns (upd_agent a f rt) = turns rt"
  "tasks (upd_agent a f rt) = tasks rt" "initializing (upd_agent a f rt) = initializing rt"
  "n_procs (upd_agent a f rt) = n_procs rt" "n_turns (upd_agent a f rt) = n_turns rt"
  "n_tasks (upd_agent a f rt) = n_tasks rt" "config (upd_agent a f rt) = config rt"
  by (simp_all add: upd_agent_def split: option.splits)

lemma procs_upd_agent:
  "procs (upd_agent a f rt) b = (if b = a then map_option f (procs rt a) else procs rt b)"
  by (simp add: upd_agent_def split: option.splits)

lemma key_of_reject_all [simp]: "key_of (reject_all e ag) = key_of ag"
proof -
  have "key_of (fold (\<lambda>r. entry_reject r e) rs ag) = key_of ag" for rs
    by (induction rs arbitrary: ag)
       (auto simp: entry_reject_def settle_call_def clearTimeout_def split: option.splits timer.splits)
  then show ?thesis by (simp add: reject_all_def)
qed

text \<open>
  Claim C10. The close handler and the error handler that \<open>spawnAgent\<close> registers on a
  child delete the registry entry of the key only if the registry still maps the key to
  that very \<open>AgentProcess\<close>: an agent registered under the same key since then stays
  registered, and no other key and no other agent changes. Whatever the registry holds,
  the pending map of the dead agent is cleared and each of its pending promises is
  rejected, with \<open>agent process exited\<close> on close and with the event's error on error.
\<close>

theorem dead_child_unregisters_only_itself:
  assumes "procs rt a = Some ag" and "wf_agent ag"
    and "(rt', e) = (child_close_handler a rt, Error ''agent process exited'')
         \<or> (rt', e) = (child_error_handler a err rt, err)"
  shows "agents rt' (key_of ag) = (if agents rt (key_of ag) = Some a then None else agents rt (key_of ag))
       \<and> (\<forall>k. k \<noteq> key_of ag \<longrightarrow> agents rt' k = agents rt k)
       \<and> (\<forall>b. b \<noteq> a \<and> agents rt (key_of ag) = Some b \<longrightarrow> agents rt' (key_of ag) = Some b)
       \<and> (\<forall>b. b \<noteq> a \<longrightarrow> procs rt' b = procs rt b)
       \<and> map_option pending (procs rt' a) = Some []
       \<and> (\<forall>rid \<in> set (pending ag). promise_of rt' a rid = Rejected e)"
proof -
  have rt': "rt' = unregister a (upd_agent a (reject_all e) rt)"
    using assms(3) by (auto simp: child_close_handler_def child_error_handler_def)
  have p: "procs (upd_agent a (reject_all e) rt) a = Some (reject_all e ag)"
    using assms(1) by (simp add: procs_upd_agent)
  have ag: "agents rt' k = (if k = key_of ag \<and> agents rt k = Some a then None else agents rt k)" for k
    unfolding rt' using unregister_agents [OF p, of k] by auto
  have pr: "promise_of rt' a rid = Rejected e" if "rid \<in> set (pending ag)" for rid
    using that assms(1,2) unfolding rt'
    by (auto simp: promise_of_def procs_upd_agent promise_in_reject_all wf_agent_def)
  show ?thesis
    using ag pr assms(1) by (auto simp: rt' procs_upd_agent)
qed

lemma fresh_init_eq:
  "fresh_init key inp rt =
     (Fresh (n_tasks rt),
      rt\<lparr> procs := (procs rt)(n_procs rt \<mapsto>
              snd (sendRequest ''initialize'' initialize_params
                     (new_agent key (cfg_command (config rt)) (cfg_args (config rt))
                        (cfg_cwd (config rt))))),
          n_procs := n_procs rt + 1,
          agents := (agents rt)(key \<mapsto> n_procs rt),
          tasks := (tasks rt)(n_tasks rt \<mapsto>
              \<lparr> task_key = key, task_input = inp, task_agent = n_procs rt,
                task_stage = AwaitInitialize 1 \<rparr>),
          n_tasks := n_tasks rt + 1,
          initializing := (initializing rt)(key \<mapsto> n_tasks rt) \<rparr>)"
  by (simp add: fresh_init_def initAgent_def spawnAgent_def send_def Let_def split_beta)


lemma ensureSession_fresh:
  "initializing rt (in_sessionKey inp) = None \<Longrightarrow> agents rt (in_sessionKey inp) = None
   \<Longrightarrow> ensureSession inp rt = fresh_init (in_sessionKey inp) inp rt"
  by (simp add: ensureSession_def)

lemma resume_init_rejected:
  assumes "tasks rt t = Some task"
    and "task_stage task = AwaitInitialize rid \<or> task_stage task = AwaitSessionNew rid"
    and "promise_of rt (task_agent task) rid = Rejected err"
  shows "resume_init t rt = fail_init t task err rt"
  using assms by (auto simp: resume_init_def)

lemma fail_init_fields:
  "agents (fail_init t task err rt) = (agents rt)(task_key task := None)"
  "initializing (fail_init t task err rt) = (initializing rt)(task_key task := None)"
  "tasks (fail_init t task err rt) = (tasks rt)(t \<mapsto> task\<lparr> task_stage := Settled (Inl err) \<rparr>)"
  "procs (fail_init t task err rt) = procs (upd_agent (task_agent task) (kill ''SIGTERM'') rt)"
  "n_procs (fail_init t task err rt) = n_procs rt"
  "n_tasks (fail_init t task err rt) = n_tasks rt"
  "config (fail_init t task err rt) = config rt"
  "turns (fail_init t task err rt) = turns rt"
  by (simp_all add: fail_init_def Let_def)

text \<open>
  Claim C2. When the request an initialization awaits (\<open>initialize\<close> or
  \<open>session/new\<close>) is rejected, the continuation of \<open>initAgent\<close> sends SIGTERM to the
  spawned child, deletes the registry entry of the key, and settles the promise of
  \<open>ensureSession\<close> with that same error; the in-flight marker is removed. The next
  \<open>ensureSession\<close> for the key therefore starts a fresh handshake: it spawns a new agent
  (a new reference, in the state \<open>spawnAgent\<close> creates, with \<open>initialize\<close> sent) and
  returns the promise of that initialization, not a handle of the failed agent.
\<close>

theorem init_failure_tears_down:
  assumes "tasks rt t = Some task"
    and "task_stage task = AwaitInitialize rid \<or> task_stage task = AwaitSessionNew rid"
    and "promise_of rt (task_agent task) rid = Rejected err"
    and "procs rt (task_agent task) = Some ag"
    and "task_agent task < n_procs rt"
    and "rt' = resume_init t rt"
    and "in_sessionKey inp = task_key task"
  shows "procs rt' (task_agent task) = Some (ag\<lparr> kills := kills ag @ [''SIGTERM''] \<rparr>)
       \<and> agents rt' (task_key task) = None
       \<and> initializing rt' (task_key task) = None
       \<and> map_option task_stage (tasks rt' t) = Some (Settled (Inl err))
       \<and> fst (ensureSession inp rt') = Fresh (n_tasks rt)
       \<and> agents (snd (ensureSession inp rt')) (task_key task) = Some (n_procs rt)
       \<and> n_procs rt \<noteq> task_agent task
       \<and> procs (snd (ensureSession inp rt')) (n_procs rt) =
            Some (snd (sendRequest ''initialize'' initialize_params
                         (new_agent (task_key task) (cfg_command (config rt))
                            (cfg_args (config rt)) (cfg_cwd (config rt)))))"
proof -
  have rt': "rt' = fail_init t task err rt"
    using assms(1,2,3,6) resume_init_rejected by simp
  have e: "ensureSession inp rt' = fresh_init (task_key task) inp rt'"
    using ensureSession_fresh [of rt' inp] assms(7) by (simp add: rt' fail_init_fields)
  show ?thesis
    unfolding e fresh_init_eq using assms(4,5)
    by (simp add: rt' fail_init_fields procs_upd_agent kill_def)
qed


text \<open>
  Claim C5, as amended. For an \<open>ensureSession\<close> call that finds an agent registered under
  the key and no initialization in flight for it: if the agent's cwd equals the effective
  cwd (\<open>input.cwd ?? config.cwd\<close>), it returns a handle built from that agent, whose
  \<open>runtimeSessionName\<close> is the agent's session id (the key when that is null), and
  changes nothing, so that repeating the call returns the same handle; if the cwd differs,
  the agent gets SIGTERM, and a fresh initialization registers a newly spawned agent under
  the key. (With an initialization in flight the call returns that initialization's
  promise instead, whatever the cwd.)
\<close>

theorem ensureSession_existing_session:
  assumes "initializing rt (in_sessionKey inp) = None"
    and "agents rt (in_sessionKey inp) = Some a"
    and "procs rt a = Some ag"
    and "a < n_procs rt"
    and "rt' = snd (ensureSession inp rt)"
  shows "(cwd ag = effective_cwd inp rt \<longrightarrow>
            fst (ensureSession inp rt) =
              Reused \<lparr> sessionKey = in_sessionKey inp, backend = ''acp-standard'',
                       runtimeSessionName =
                         (if sessionId ag = JNull then JStr (in_sessionKey inp) else sessionId ag),
                       handle_cwd = effective_cwd inp rt \<rparr>
          \<and> rt' = rt
          \<and> ensureSession inp rt' = ensureSession inp rt)
       \<and> (cwd ag \<noteq> effective_cwd inp rt \<longrightarrow>
            fst (ensureSession inp rt) = Fresh (n_tasks rt)
          \<and> initializing rt' (in_sessionKey inp) = Some (n_tasks rt)
          \<and> procs rt' a = Some (ag\<lparr> kills := kills ag @ [''SIGTERM''] \<rparr>)
          \<and> agents rt' (in_sessionKey inp) = Some (n_procs rt)
          \<and> n_procs rt \<noteq> a
          \<and> procs rt' (n_procs rt) =
               Some (snd (sendRequest ''initialize'' initialize_params
                            (new_agent (in_sessionKey inp) (cfg_command (config rt))
                               (cfg_args (config rt)) (cfg_cwd (config rt))))))"
proof (intro conjI impI)
  assume same: "cwd ag = effective_cwd inp rt"
  have r: "ensureSession inp rt =
      (Reused \<lparr> sessionKey = in_sessionKey inp, backend = ''acp-standard'',
                runtimeSessionName =
                  (if sessionId ag = JNull then JStr (in_sessionKey inp) else sessionId ag),
                handle_cwd = effective_cwd inp rt \<rparr>, rt)"
    using assms(1,2,3) same
    by (cases "sessionId ag")
       (simp_all add: ensureSession_def STANDARD_ACP_BACKEND_ID_def nullish_def Let_def)
  show "fst (ensureSession inp rt) =
      Reused \<lparr> sessionKey = in_sessionKey inp, backend = ''acp-standard'',
               runtimeSessionName =
                 (if sessionId ag = JNull then JStr (in_sessionKey inp) else sessionId ag),
               handle_cwd = effective_cwd inp rt \<rparr>"
    using r by simp
  show "rt' = rt" using r assms(5) by simp
  then show "ensureSession inp rt' = ensureSession inp rt" by simp
next
  assume diff: "cwd ag \<noteq> effective_cwd inp rt"
  let ?rt0 = "(upd_agent a (kill ''SIGTERM'') rt)\<lparr> agents := (agents rt)(in_sessionKey inp := None) \<rparr>"
  have e: "ensureSession inp rt = fresh_init (in_sessionKey inp) inp ?rt0"
    using assms(1,2,3) diff by (simp add: ensureSession_def Let_def)
  have rt': "rt' = snd (fresh_init (in_sessionKey inp) inp ?rt0)" using e assms(5) by simp
  show "fst (ensureSession inp rt) = Fresh (n_tasks rt)"
    unfolding e fresh_init_eq by simp
  show "initializing rt' (in_sessionKey inp) = Some (n_tasks rt)"
    unfolding rt' fresh_init_eq by simp
  show "n_procs rt \<noteq> a" using assms(4) by simp
  then show "procs rt' a = Some (ag\<lparr> kills := kills ag @ [''SIGTERM''] \<rparr>)"
    unfolding rt' fresh_init_eq using assms(3) by (simp add: procs_upd_agent kill_def)
  show "agents rt' (in_sessionKey inp) = Some (n_procs rt)"
    unfolding rt' fresh_init_eq by simp
  show "procs rt' (n_procs rt) =
      Some (snd (sendRequest ''initialize'' initialize_params
                   (new_agent (in_sessionKey inp) (cfg_command (config rt))
                      (cfg_args (config rt)) (cfg_cwd (config rt)))))"
    unfolding rt' fresh_init_eq by simp
qed






subsection \<open>The registry on the scenarios of the test suite\<close>

lemma handshake_state:
  "agents (run (handshake inp) (new_runtime test_config)) (in_sessionKey inp) = Some 0
   \<and> initializing (run (handshake inp) (new_runtime test_config)) (in_sessionKey inp) = None
   \<and> n_procs (run (handshake inp) (new_runtime test_config)) = 1
   \<and> n_tasks (run (handshake inp) (new_runtime test_config)) = 1
   \<and> n_turns (run (handshake inp) (new_runtime test_config)) = 0
   \<and> config (run (handshake inp) (new_runtime test_config)) = test_config
   \<and> (\<exists>ag. procs (run (handshake inp) (new_runtime test_config)) 0 = Some ag
          \<and> cwd ag = effective_cwd inp (new_runtime test_config) \<and> spawn_cwd ag = ''/tmp/acp-test''
          \<and> sessionId ag = JStr ''mock-session-1'' \<and> kills ag = [] \<and> pending ag = []
          \<and> nextId ag = 3 \<and> key_of ag = in_sessionKey inp \<and> notifications ag = None)"
  by (simp add: handshake_def run_def step_def microtasks_def ensureSession_fresh fresh_init_eq
        new_runtime_def stdout_line_def on_line_def result_line_def resume_init_def promise_of_def
        promise_in_def sendRequest_def new_agent_def entry_resolve_def settle_call_def
        clearTimeout_def settle_def CONTROL_METHODS_def send_def upd_agent_def
        effective_cwd_def nullish_def opt_chain_def react_prompt_def upd_turn_def Let_def
        test_config_def split: option.splits)


lemma wf_agent_kill [simp]: "wf_agent (kill signame ag) = wf_agent ag"
  by (simp add: wf_agent_def kill_def promise_in_def known_def)

lemma wf_sent: "wf_agent (snd (sendRequest m p (new_agent key cmd argv dir)))"
  using wf_act [OF wf_new_agent, of "Send m p"] by simp

lemma key_of_sendRequest [simp]: "key_of (snd (sendRequest m p ag)) = key_of ag"
  by (simp add: sendRequest_def Let_def)

lemma key_of_new_agent [simp]: "key_of (new_agent key cmd argv dir) = key"
  by (simp add: new_agent_def)

lemma key_of_kill [simp]: "key_of (kill signame ag) = key_of ag"
  by (simp add: kill_def)

lemma started_state:
  "ensureSession inp (new_runtime cfg) =
     (Fresh 0,
      (new_runtime cfg)\<lparr>
          procs := [0 \<mapsto> snd (sendRequest ''initialize'' initialize_params
                     (new_agent (in_sessionKey inp) (cfg_command cfg) (cfg_args cfg) (cfg_cwd cfg)))],
          n_procs := 1,
          agents := [in_sessionKey inp \<mapsto> 0],
          tasks := [0 \<mapsto> \<lparr> task_key = in_sessionKey inp, task_input = inp, task_agent = 0,
                            task_stage = AwaitInitialize 1 \<rparr>],
          n_tasks := 1,
          initializing := [in_sessionKey inp \<mapsto> 0] \<rparr>)"
  by (simp add: ensureSession_fresh fresh_init_eq new_runtime_def)

theorem dead_child_unregisters_only_itself_witness:
  "agents (child_error_handler 0 (Foreign ''spawn node ENOENT'')
             (snd (ensureSession s1_input (new_runtime test_config)))) ''s1'' = None
   \<and> promise_of (child_error_handler 0 (Foreign ''spawn node ENOENT'')
             (snd (ensureSession s1_input (new_runtime test_config)))) 0 1
       = Rejected (Foreign ''spawn node ENOENT'')
   \<and> agents (snd (ensureSession s1_input (resume_init 0
        (child_error_handler 0 (Foreign ''spawn node ENOENT'')
             (snd (ensureSession s1_input (new_runtime test_config))))))) ''s1'' = Some 1
   \<and> agents (child_close_handler 0 (snd (ensureSession s1_input (resume_init 0
        (child_error_handler 0 (Foreign ''spawn node ENOENT'')
             (snd (ensureSession s1_input (new_runtime test_config)))))))) ''s1'' = Some 1"
proof -
  let ?e = "Foreign ''spawn node ENOENT''"
  let ?ag1 = "snd (sendRequest ''initialize'' initialize_params
                (new_agent ''s1'' ''node'' [''mock-agent.cjs''] ''/tmp/acp-test''))"
  let ?rt1 = "snd (ensureSession s1_input (new_runtime test_config))"
  let ?rt1e = "child_error_handler 0 ?e ?rt1"
  let ?rt2 = "resume_init 0 ?rt1e"
  let ?rt3 = "snd (ensureSession s1_input ?rt2)"
  have p1: "procs ?rt1 0 = Some ?ag1" and a1: "agents ?rt1 ''s1'' = Some 0"
    and t1: "tasks ?rt1 0 = Some \<lparr> task_key = ''s1'', task_input = s1_input, task_agent = 0,
                            task_stage = AwaitInitialize 1 \<rparr>"
    and n1: "n_procs ?rt1 = 1" "n_tasks ?rt1 = 1" and i1: "initializing ?rt1 ''s1'' = Some 0"
    by (simp_all add: started_state s1_input_def test_config_def)
  have pe: "pending ?ag1 = [1]" and k: "key_of ?ag1 = ''s1''" by simp_all
  note A = dead_child_unregisters_only_itself [OF p1 wf_sent, of ?rt1e ?e ?e, unfolded k pe]
  have 1: "agents ?rt1e ''s1'' = None" and 2: "promise_of ?rt1e 0 1 = Rejected ?e"
    and pr: "map_option pending (procs ?rt1e 0) = Some []"
    using A a1 by simp_all
  obtain ag1e where p1e: "procs ?rt1e 0 = Some ag1e"
    using pr by (cases "procs ?rt1e 0") simp_all
  have ag1e: "ag1e = reject_all ?e ?ag1"
    using p1e p1 by (simp add: child_error_handler_def procs_upd_agent)
  have t1e: "tasks ?rt1e 0 = Some \<lparr> task_key = ''s1'', task_input = s1_input, task_agent = 0,
                            task_stage = AwaitInitialize 1 \<rparr>"
    using t1 by (simp add: child_error_handler_def)
  have rt2: "?rt2 = fail_init 0 \<lparr> task_key = ''s1'', task_input = s1_input, task_agent = 0,
                            task_stage = AwaitInitialize 1 \<rparr> ?e ?rt1e"
    using resume_init_rejected [OF t1e _ _] 2 by simp
  have n1e: "n_procs ?rt1e = 1" using n1 by (simp add: child_error_handler_def)
  have a2: "agents ?rt2 ''s1'' = None" and i2: "initializing ?rt2 ''s1'' = None"
    and n2: "n_procs ?rt2 = 1"
    unfolding rt2 using n1e by (simp_all add: fail_init_fields)
  have p2: "procs ?rt2 0 = Some (kill ''SIGTERM'' ag1e)"
    unfolding rt2 using p1e by (simp add: fail_init_fields procs_upd_agent)
  have e3: "ensureSession s1_input ?rt2 = fresh_init ''s1'' s1_input ?rt2"
    using ensureSession_fresh [of ?rt2 s1_input] a2 i2 by (simp add: s1_input_def)
  have a3: "agents ?rt3 ''s1'' = Some 1" and p3: "procs ?rt3 0 = Some (kill ''SIGTERM'' ag1e)"
    unfolding e3 fresh_init_eq using n2 p2 by simp_all
  have wf3: "wf_agent (kill ''SIGTERM'' ag1e)"
    unfolding ag1e using wf_act [OF wf_sent, of "ProcError ?e"] by simp
  have k3: "key_of (kill ''SIGTERM'' ag1e) = ''s1''" unfolding ag1e by simp
  note B = dead_child_unregisters_only_itself [OF p3 wf3,
      of "child_close_handler 0 ?rt3" "Error ''agent process exited''" ?e, unfolded k3]
  have 4: "agents (child_close_handler 0 ?rt3) ''s1'' = Some 1" using B a3 by simp
  show ?thesis using 1 2 a3 4 by blast
qed


theorem init_failure_tears_down_witness:
  "agents (resume_init 0 (stdout_line 0
       (error_line 1 (JObj [(''code'', JNum (- 1)), (''message'', JStr ''init failed'')]))
       (snd (ensureSession s1_input (new_runtime test_config))))) ''s1'' = None
   \<and> initializing (resume_init 0 (stdout_line 0
       (error_line 1 (JObj [(''code'', JNum (- 1)), (''message'', JStr ''init failed'')]))
       (snd (ensureSession s1_input (new_runtime test_config))))) ''s1'' = None
   \<and> map_option kills (procs (resume_init 0 (stdout_line 0
       (error_line 1 (JObj [(''code'', JNum (- 1)), (''message'', JStr ''init failed'')]))
       (snd (ensureSession s1_input (new_runtime test_config))))) 0) = Some [''SIGTERM'']
   \<and> map_option task_stage (tasks (resume_init 0 (stdout_line 0
       (error_line 1 (JObj [(''code'', JNum (- 1)), (''message'', JStr ''init failed'')]))
       (snd (ensureSession s1_input (new_runtime test_config))))) 0)
       = Some (Settled (Inl (RpcError
           (JObj [(''code'', JNum (- 1)), (''message'', JStr ''init failed'')]))))
   \<and> fst (ensureSession s1_input (resume_init 0 (stdout_line 0
       (error_line 1 (JObj [(''code'', JNum (- 1)), (''message'', JStr ''init failed'')]))
       (snd (ensureSession s1_input (new_runtime test_config)))))) = Fresh 1
   \<and> agents (snd (ensureSession s1_input (resume_init 0 (stdout_line 0
       (error_line 1 (JObj [(''code'', JNum (- 1)), (''message'', JStr ''init failed'')]))
       (snd (ensureSession s1_input (new_runtime test_config))))))) ''s1'' = Some 1"
proof -
  let ?err = "JObj [(''code'', JNum (- 1)), (''message'', JStr ''init failed'')]"
  let ?ag1 = "snd (sendRequest ''initialize'' initialize_params
                (new_agent ''s1'' ''node'' [''mock-agent.cjs''] ''/tmp/acp-test''))"
  let ?task = "\<lparr> task_key = ''s1'', task_input = s1_input, task_agent = 0,
                 task_stage = AwaitInitialize 1 \<rparr>"
  let ?rt1 = "snd (ensureSession s1_input (new_runtime test_config))"
  let ?rtl = "stdout_line 0 (error_line 1 ?err) ?rt1"
  have p1: "procs ?rt1 0 = Some ?ag1" and t1: "tasks ?rt1 0 = Some ?task"
    and n1: "n_procs ?rt1 = 1" "n_tasks ?rt1 = 1"
    by (simp_all add: started_state s1_input_def test_config_def)
  have l: "on_line (error_line 1 ?err) ?ag1 =
      (entry_reject 1 (RpcError ?err) (?ag1\<lparr> pending := [] \<rparr>), None)"
    by (simp add: on_line_def error_line_def)
  have rtl: "?rtl = ?rt1\<lparr> procs := (procs ?rt1)(0 \<mapsto>
      entry_reject 1 (RpcError ?err) (?ag1\<lparr> pending := [] \<rparr>)) \<rparr>"
    using p1 l by (simp add: stdout_line_def)
  have tl: "tasks ?rtl 0 = Some ?task" and nl: "n_procs ?rtl = 1" "n_tasks ?rtl = 1"
    and pl: "procs ?rtl 0 = Some (entry_reject 1 (RpcError ?err) (?ag1\<lparr> pending := [] \<rparr>))"
    unfolding rtl using t1 n1 by simp_all
  have kl: "kills (entry_reject 1 (RpcError ?err) (?ag1\<lparr> pending := [] \<rparr>)) = []"
    by (simp add: entry_reject_def settle_call_def clearTimeout_def sendRequest_def new_agent_def
        CONTROL_METHODS_def)
  have rej: "promise_of ?rtl (task_agent ?task) 1 = Rejected (RpcError ?err)"
    using pl by (simp add: promise_of_def promise_in_entry_reject)
  have ta: "task_agent ?task < n_procs ?rtl" using nl by simp
  have st: "task_stage ?task = AwaitInitialize 1 \<or> task_stage ?task = AwaitSessionNew 1" by simp
  have pa: "procs ?rtl (task_agent ?task) = Some (entry_reject 1 (RpcError ?err) (?ag1\<lparr> pending := [] \<rparr>))"
    using pl by simp
  have ky: "in_sessionKey s1_input = task_key ?task" by (simp add: s1_input_def)
  note T = init_failure_tears_down [OF tl st rej pa ta refl ky]
  show ?thesis using T nl kl by simp
qed

theorem ensureSession_existing_session_witness:
  "fst (ensureSession s1_input (run (handshake s1_input) (new_runtime test_config)))
     = Reused \<lparr> sessionKey = ''s1'', backend = ''acp-standard'',
                runtimeSessionName = JStr ''mock-session-1'', handle_cwd = ''/tmp/acp-test'' \<rparr>
   \<and> snd (ensureSession s1_input (run (handshake s1_input) (new_runtime test_config)))
     = run (handshake s1_input) (new_runtime test_config)
   \<and> fst (ensureSession \<lparr> in_sessionKey = ''s1'', in_cwd = Some ''/tmp/acp-test2'' \<rparr>
        (run (handshake s1_input) (new_runtime test_config))) = Fresh 1
   \<and> agents (snd (ensureSession \<lparr> in_sessionKey = ''s1'', in_cwd = Some ''/tmp/acp-test2'' \<rparr>
        (run (handshake s1_input) (new_runtime test_config)))) ''s1'' = Some 1
   \<and> map_option kills (procs (snd (ensureSession \<lparr> in_sessionKey = ''s1'', in_cwd = Some ''/tmp/acp-test2'' \<rparr>
        (run (handshake s1_input) (new_runtime test_config)))) 0) = Some [''SIGTERM'']"
proof -
  let ?rt = "run (handshake s1_input) (new_runtime test_config)"
  let ?inp2 = "\<lparr> in_sessionKey = ''s1'', in_cwd = Some ''/tmp/acp-test2'' \<rparr>"
  from handshake_state [of s1_input]
  obtain ag where i: "initializing ?rt ''s1'' = None" and a: "agents ?rt ''s1'' = Some 0"
    and n: "n_procs ?rt = 1" "n_tasks ?rt = 1" and c: "config ?rt = test_config"
    and p: "procs ?rt 0 = Some ag" and ag: "cwd ag = ''/tmp/acp-test''"
      "sessionId ag = JStr ''mock-session-1''" "kills ag = []"
    by (auto simp: s1_input_def effective_cwd_def new_runtime_def test_config_def)
  have i1: "initializing ?rt (in_sessionKey s1_input) = None"
    and a1: "agents ?rt (in_sessionKey s1_input) = Some 0" using i a by (simp_all add: s1_input_def)
  have i2: "initializing ?rt (in_sessionKey ?inp2) = None"
    and a2: "agents ?rt (in_sessionKey ?inp2) = Some 0" using i a by simp_all
  have lt: "0 < n_procs ?rt" using n by simp
  have e1: "effective_cwd s1_input ?rt = ''/tmp/acp-test''"
    and e2: "effective_cwd ?inp2 ?rt = ''/tmp/acp-test2''"
    using c by (simp_all add: effective_cwd_def s1_input_def test_config_def)
  note A = ensureSession_existing_session [OF i1 a1 p lt refl, unfolded e1]
  note B = ensureSession_existing_session [OF i2 a2 p lt refl, unfolded e2]
  have 1: "fst (ensureSession s1_input ?rt)
     = Reused \<lparr> sessionKey = ''s1'', backend = ''acp-standard'',
                runtimeSessionName = JStr ''mock-session-1'', handle_cwd = ''/tmp/acp-test'' \<rparr>"
    and 2: "snd (ensureSession s1_input ?rt) = ?rt"
    using A ag by (simp_all add: s1_input_def)
  have 3: "fst (ensureSession ?inp2 ?rt) = Fresh 1"
    and 4: "agents (snd (ensureSession ?inp2 ?rt)) ''s1'' = Some 1"
    and 5: "map_option kills (procs (snd (ensureSession ?inp2 ?rt)) 0) = Some [''SIGTERM'']"
    using B ag n by simp_all
  show ?thesis using 1 2 3 4 5 by blast
qed

text \<open>
  Claim C5 as stated fails while an initialization is in flight: the agent is registered
  under the key already, yet \<open>ensureSession\<close> returns the promise of that initialization
  and neither builds a handle (same cwd) nor sends SIGTERM and starts afresh (other cwd).
\<close>

theorem ensureSession_joins_inflight_initialization:
  "agents (snd (ensureSession s1_input (new_runtime test_config))) ''s1'' = Some 0
   \<and> map_option cwd (procs (snd (ensureSession s1_input (new_runtime test_config))) 0)
       = Some (effective_cwd s1_input (snd (ensureSession s1_input (new_runtime test_config))))
   \<and> ensureSession s1_input (snd (ensureSession s1_input (new_runtime test_config)))
       = (Inflight 0, snd (ensureSession s1_input (new_runtime test_config)))
   \<and> ensureSession \<lparr> in_sessionKey = ''s1'', in_cwd = Some ''/tmp/acp-test2'' \<rparr>
         (snd (ensureSession s1_input (new_runtime test_config)))
       = (Inflight 0, snd (ensureSession s1_input (new_runtime test_config)))
   \<and> map_option kills (procs (snd (ensureSession s1_input (new_runtime test_config))) 0) = Some []"
proof -
  let ?rt1 = "snd (ensureSession s1_input (new_runtime test_config))"
  let ?ag1 = "snd (sendRequest ''initialize'' initialize_params
                (new_agent ''s1'' ''node'' [''mock-agent.cjs''] ''/tmp/acp-test''))"
  have p1: "procs ?rt1 0 = Some ?ag1" and a1: "agents ?rt1 ''s1'' = Some 0"
    and i1: "initializing ?rt1 ''s1'' = Some 0" and c1: "config ?rt1 = test_config"
    unfolding started_state by (simp_all add: s1_input_def test_config_def new_runtime_def)
  have e: "ensureSession inp ?rt1 = (Inflight 0, ?rt1)" if "in_sessionKey inp = ''s1''" for inp
    using that i1 by (simp add: ensureSession_def Let_def)
  have c: "cwd ?ag1 = ''/tmp/acp-test''" and k: "kills ?ag1 = []"
    by (simp_all add: sendRequest_def new_agent_def)
  have ef: "effective_cwd s1_input ?rt1 = ''/tmp/acp-test''"
    using c1 by (simp add: effective_cwd_def s1_input_def test_config_def)
  show ?thesis
    using a1 p1 c k ef e [of s1_input] e [of "\<lparr> in_sessionKey = ''s1'', in_cwd = Some ''/tmp/acp-test2'' \<rparr>"]
    by (simp add: s1_input_def)
qed





subsection \<open>The turn engine\<close>


lemma pushes_refl: "pushes tu tu"
  unfolding pushes_def by (simp add: exI [of _ "[]"])

lemma pushes_push:
  "pushes tu (push e (tu\<lparr> abort_fired := b \<rparr>)) \<or> \<not> terminal e"
  "pushes tu (push e (tu\<lparr> prompt_reacted := b \<rparr>)) \<or> \<not> terminal e"
  "pushes tu (push e tu) \<or> \<not> terminal e"
  unfolding pushes_def push_def ordinary_def by (simp_all add: exI [of _ "[e]"])

lemma pushes_flags:
  "pushes tu (tu\<lparr> abort_fired := b \<rparr>)" "pushes tu (tu\<lparr> prompt_reacted := b \<rparr>)"
  unfolding pushes_def by (simp_all add: exI [of _ "[]"])

lemma pushes_sink: "\<not> terminal e \<Longrightarrow> pushes tu (sink e tu)"
  unfolding pushes_def sink_def push_def ordinary_def by (simp add: exI [of _ "[e]"])

lemma pushes_onClose: "pushes tu (onClose tu)"
  unfolding onClose_def using pushes_push(3) [of tu "ErrorEv (Inl ''agent process exited unexpectedly'')"]
  by (simp add: pushes_refl)

lemma pushes_onAbort: "pushes tu (onAbort (tu\<lparr> abort_fired := True \<rparr>))"
  unfolding onAbort_def using pushes_push(1) [of tu "Done (JStr ''cancelled'')" True]
  by (simp add: pushes_flags)

lemma pushes_then: "pushes tu (prompt_then res (tu\<lparr> prompt_reacted := True \<rparr>))"
  unfolding prompt_then_def
  using pushes_push(2) [of tu "Done (nullish (opt_chain res ''stopReason'') (JStr ''end_turn''))" True]
  by (simp add: pushes_flags)

lemma pushes_catch: "pushes tu (prompt_catch err (tu\<lparr> prompt_reacted := True \<rparr>))"
  unfolding prompt_catch_def using pushes_push(2) [of tu "ErrorEv (Inr err)" True]
  by (simp add: pushes_flags)

lemma list_all_snoc_butlast:
  "xs \<noteq> [] \<Longrightarrow> list_all P (butlast xs) \<Longrightarrow> P (last xs) \<Longrightarrow> list_all P xs"
  by (induction xs) (auto split: if_splits)

lemma pump_yield_inv:
  assumes "list_all ordinary (yielded tu)" and "\<not> done_flag tu" and "failure tu = None"
    and "tu_agent tu \<noteq> None"
    and "filter ordinary (yielded tu @ events tu) = delivered tu"
  shows "turn_inv (pump tu)"
proof (cases "events tu")
  case Nil
  then show ?thesis using assms by (simp add: turn_inv_def pump_def)
next
  case (Cons x xs)
  then have p: "pump tu = tu\<lparr> events := xs, yielded := yielded tu @ [x], phase := AtYield x \<rparr>"
    using assms(2) by (simp add: pump_def)
  obtain a where a: "tu_agent tu = Some a" using assms(4) by blast
  show ?thesis unfolding p using assms(1,2,3,5) Cons a by (simp add: turn_inv_def)
qed


lemma resume_inv: "turn_inv tu \<Longrightarrow> turn_inv (resume tu)"
proof (cases "phase tu")
  case Waiting
  assume "turn_inv tu"
  then show ?thesis using Waiting by (simp add: resume_def)
next
  case Ended
  assume "turn_inv tu"
  then show ?thesis using Ended by (simp add: resume_def)
next
  case (AtYield e)
  assume inv: "turn_inv tu"
  then have f: "yielded tu \<noteq> []" "last (yielded tu) = e" "list_all ordinary (butlast (yielded tu))"
      "\<not> done_flag tu" "failure tu = None" "tu_agent tu = None \<longrightarrow> terminal e"
      "filter ordinary (yielded tu @ events tu) = delivered tu"
    using AtYield by (simp_all add: turn_inv_def)
  show ?thesis
  proof (cases "tu_agent tu = None")
    case True
    then have "resume tu = tu\<lparr> phase := Ended \<rparr>" using AtYield by (simp add: resume_def)
    then show ?thesis using f True by (simp add: turn_inv_def)
  next
    case False
    then obtain a where a: "tu_agent tu = Some a" by blast
    show ?thesis
    proof (cases "terminal e")
      case True
      then have "resume tu = tu\<lparr> done_flag := True, phase := Ended, hooked := False \<rparr>"
        using AtYield a by (simp add: resume_def pump_def)
      then show ?thesis using f True by (simp add: turn_inv_def)
    next
      case nt: False
      then have r: "resume tu = pump tu" using AtYield a by (simp add: resume_def)
      have "list_all ordinary (yielded tu)"
        using f(1,2,3) nt by (simp add: list_all_snoc_butlast ordinary_def)
      then show ?thesis unfolding r using f(4,5) False f(7) by (rule pump_yield_inv)
    qed
  qed
qed




text \<open>Every handler and the microtasks change turns by the three operations only.\<close>

lemma evolved_refl: "evolved x x"
  by (cases x) (auto simp: evolved_def)

lemma evolved_trans:
  assumes "evolved x y" and "evolved y z"
  shows "evolved x z"
proof (cases y)
  case None
  then have "x = None" using assms(1) by (cases x) (simp_all add: evolved_def)
  then show ?thesis using assms(2) None by simp
next
  case y: (Some tu')
  then obtain tu'' where z: "z = Some tu''" "turn_op\<^sup>*\<^sup>* tu' tu''"
    using assms(2) by (auto simp: evolved_def)
  show ?thesis
  proof (cases x)
    case None
    then obtain tu0 where 0: "initial_turn tu0" "turn_op\<^sup>*\<^sup>* tu0 tu'"
      using assms(1) y by (auto simp: evolved_def)
    have "turn_op\<^sup>*\<^sup>* tu0 tu''" using 0(2) z(2) by (rule rtranclp_trans)
    then show ?thesis using None z(1) 0(1) by (auto simp: evolved_def)
  next
    case (Some tu)
    then have "turn_op\<^sup>*\<^sup>* tu tu'" using assms(1) y by (simp add: evolved_def)
    then have "turn_op\<^sup>*\<^sup>* tu tu''" using z(2) by (rule rtranclp_trans)
    then show ?thesis using Some z(1) by (simp add: evolved_def)
  qed
qed

lemma evolved_op: "turn_op tu tu' \<Longrightarrow> evolved (Some tu) (Some tu')"
  by (auto simp: evolved_def)

lemma evolved_new: "initial_turn tu \<Longrightarrow> evolved None (Some tu)"
  by (auto simp: evolved_def)

lemma evolves_refl: "evolves rt rt"
  by (simp add: evolves_def evolved_refl)

lemma evolves_trans:
  assumes "evolves a b" and "evolves b c"
  shows "evolves a c"
proof -
  have "turns_fresh c \<and> evolved (turns a t) (turns c t)" if f: "turns_fresh a" for t
  proof -
    have b: "turns_fresh b" "evolved (turns a t) (turns b t)"
      using assms(1) f by (simp_all add: evolves_def)
    then have "turns_fresh c" "evolved (turns b t) (turns c t)"
      using assms(2) by (simp_all add: evolves_def)
    then show ?thesis using b(2) evolved_trans by blast
  qed
  then show ?thesis by (simp add: evolves_def)
qed

lemma evolves_same: "turns rt' = turns rt \<Longrightarrow> n_turns rt' = n_turns rt \<Longrightarrow> evolves rt rt'"
  by (simp add: evolves_def evolved_refl turns_fresh_def)

lemma upd_turn_fields [simp]:
  "n_turns (upd_turn t f rt) = n_turns rt" "procs (upd_turn t f rt) = procs rt"
  "agents (upd_turn t f rt) = agents rt" "n_procs (upd_turn t f rt) = n_procs rt"
  by (simp_all add: upd_turn_def split: option.splits)

lemma turns_upd_turn:
  "turns (upd_turn t f rt) u = (if u = t then map_option f (turns rt t) else turns rt u)"
  by (simp add: upd_turn_def split: option.splits)

lemma evolves_upd_turn:
  assumes "\<And>tu. turn_op tu (f tu)"
  shows "evolves rt (upd_turn t f rt)"
proof -
  have "evolved (turns rt u) (turns (upd_turn t f rt) u)" for u
    by (cases "turns rt t") (simp_all add: turns_upd_turn evolved_refl evolved_op assms)
  moreover have "turns_fresh rt \<Longrightarrow> turns_fresh (upd_turn t f rt)"
    by (simp add: turns_fresh_def turns_upd_turn)
  ultimately show ?thesis by (simp add: evolves_def)
qed

lemma evolves_fold:
  assumes "\<And>x rt. evolves rt (f x rt)"
  shows "evolves rt (fold f xs rt)"
proof (induction xs arbitrary: rt)
  case Nil
  show ?case by (simp add: evolves_refl)
next
  case (Cons x xs)
  show ?case using evolves_trans [OF assms [of rt x] Cons [of "f x rt"]] by simp
qed

lemma send_turns [simp]:
  "turns (snd (send a m p rt)) = turns rt" "n_turns (snd (send a m p rt)) = n_turns rt"
  by (simp_all add: send_def split_beta split: option.splits)

lemma cancel_turns [simp]:
  "turns (cancel k rt) = turns rt" "n_turns (cancel k rt) = n_turns rt"
  by (simp_all add: cancel_def split: option.splits)

lemma close_turns [simp]:
  "turns (close k rt) = turns rt" "n_turns (close k rt) = n_turns rt"
  by (simp_all add: close_def split: option.splits)

lemma setMode_turns [simp]:
  "turns (setMode k m rt) = turns rt" "n_turns (setMode k m rt) = n_turns rt"
  by (simp_all add: setMode_def split: option.splits)

lemma fresh_init_turns [simp]:
  "turns (snd (fresh_init key inp rt)) = turns rt"
  "n_turns (snd (fresh_init key inp rt)) = n_turns rt"
  by (simp_all add: fresh_init_eq)

lemma ensureSession_turns [simp]:
  "turns (snd (ensureSession inp rt)) = turns rt"
  "n_turns (snd (ensureSession inp rt)) = n_turns rt"
  by (simp_all add: ensureSession_def Let_def split: option.splits)

lemma resume_init_turns [simp]:
  "turns (resume_init t rt) = turns rt" "n_turns (resume_init t rt) = n_turns rt"
  by (simp_all add: resume_init_def fail_init_def Let_def split_beta
        split: option.splits stage.splits promise.splits)

lemma child_handlers_turns [simp]:
  "turns (child_close_handler a rt) = turns rt" "n_turns (child_close_handler a rt) = n_turns rt"
  "turns (child_error_handler a err rt) = turns rt"
  "n_turns (child_error_handler a err rt) = n_turns rt"
  by (simp_all add: child_close_handler_def child_error_handler_def)

lemma evolves_stdout_line: "evolves rt (stdout_line a l rt)"
proof (cases "procs rt a")
  case None
  then show ?thesis by (simp add: stdout_line_def evolves_refl)
next
  case (Some ag)
  define rt1 where "rt1 = rt\<lparr> procs := (procs rt)(a \<mapsto> fst (on_line l ag)) \<rparr>"
  have 1: "evolves rt rt1" by (rule evolves_same) (simp_all add: rt1_def)
  have nt: "\<not> terminal e" if "snd (on_line l ag) = Some e" for e
    using that by (cases l ag rule: on_line_cases) (auto dest: mapper_not_terminal)
  have "stdout_line a l rt = rt1 \<or>
        (\<exists>e t. \<not> terminal e \<and> stdout_line a l rt = upd_turn t (sink e) rt1)"
    using Some nt
    by (auto simp: stdout_line_def rt1_def split_beta Let_def split: option.splits)
  then show ?thesis
  proof
    assume "stdout_line a l rt = rt1"
    then show ?thesis using 1 by simp
  next
    assume "\<exists>e t. \<not> terminal e \<and> stdout_line a l rt = upd_turn t (sink e) rt1"
    then obtain e t where e: "\<not> terminal e" "stdout_line a l rt = upd_turn t (sink e) rt1"
      by blast
    have "evolves rt1 (upd_turn t (sink e) rt1)"
      by (rule evolves_upd_turn) (simp add: by_push pushes_sink e(1))
    then show ?thesis unfolding e(2) by (rule evolves_trans [OF 1])
  qed
qed

lemma evolves_turn_close_listener: "evolves rt (turn_close_listener a t rt)"
  unfolding turn_close_listener_def
  by (rule evolves_upd_turn) (auto intro: by_push pushes_onClose pushes_refl)

lemma evolves_abort: "evolves rt (abort t rt)"
proof -
  have 1: "evolves rt (cancel k rt)" for k by (rule evolves_same) simp_all
  have 2: "evolves (cancel k rt) (upd_turn t (\<lambda>tu. onAbort (tu\<lparr> abort_fired := True \<rparr>)) (cancel k rt))"
    for k by (rule evolves_upd_turn) (auto intro: by_push pushes_onAbort)
  show ?thesis
    using evolves_trans [OF 1 2] by (simp add: abort_def evolves_refl split: option.splits)
qed

lemma evolves_react_prompt: "evolves rt (react_prompt t rt)"
proof -
  have 1: "evolves rt (upd_turn t (\<lambda>tu. prompt_then res (tu\<lparr> prompt_reacted := True \<rparr>)) rt)" for res
    by (rule evolves_upd_turn) (auto intro: by_push pushes_then)
  have 2: "evolves rt (upd_turn t (\<lambda>tu. prompt_catch err (tu\<lparr> prompt_reacted := True \<rparr>)) rt)" for err
    by (rule evolves_upd_turn) (auto intro: by_push pushes_catch)
  show ?thesis
    using 1 2 by (simp add: react_prompt_def evolves_refl split: option.splits promise.splits)
qed

lemma evolves_next_event: "evolves rt (next_event t rt)"
proof (cases "turns rt t")
  case None
  then show ?thesis by (simp add: next_event_def evolves_refl)
next
  case (Some tu)
  have eq: "turns (next_event t rt) = (turns rt)(t \<mapsto> resume tu)"
    "n_turns (next_event t rt) = n_turns rt"
    using Some by (simp_all add: next_event_def Let_def split: option.splits)
  have "evolved (turns rt u) (turns (next_event t rt) u)" for u
    using Some by (simp add: eq evolved_refl evolved_op by_resume)
  moreover have "turns_fresh rt \<Longrightarrow> turns_fresh (next_event t rt)"
    using Some by (auto simp: turns_fresh_def eq)
  ultimately show ?thesis by (simp add: evolves_def)
qed

lemma evolves_add_turn:
  assumes "initial_turn tu" and "turns rt' = turns rt" and "n_turns rt' = n_turns rt"
  shows "evolves rt (add_turn tu rt')"
proof -
  have "evolved (turns rt u) (turns (add_turn tu rt') u)" if "turns_fresh rt" for u
    using that assms by (auto simp: add_turn_def evolved_refl evolved_new turns_fresh_def)
  moreover have "turns_fresh rt \<Longrightarrow> turns_fresh (add_turn tu rt')"
    using assms by (simp add: turns_fresh_def add_turn_def)
  ultimately show ?thesis by (simp add: evolves_def)
qed

lemma evolves_runTurn: "evolves rt (runTurn inp rt)"
proof -
  have a: "initial_turn ((blank_turn k)
             \<lparr> tu_signal := True, phase := AtYield (Done (JStr ''cancelled'')),
               yielded := [Done (JStr ''cancelled'')] \<rparr>)" for k
    by (simp add: initial_turn_def blank_turn_def)
  have b: "initial_turn ((blank_turn k)\<lparr> tu_signal := s, failure := Some e \<rparr>)" for k s e
    by (simp add: initial_turn_def blank_turn_def)
  have c: "initial_turn (pump ((blank_turn k)
             \<lparr> tu_agent := Some a, tu_prompt := r, tu_signal := s, hooked := True \<rparr>))" for k a r s
    by (simp add: initial_turn_def blank_turn_def pump_def)
  show ?thesis
    by (auto simp: runTurn_def Let_def split_beta evolves_refl
          intro!: evolves_add_turn a b c split: option.splits)
qed

lemma evolves_microtasks: "evolves rt (microtasks rt)"
proof -
  have 1: "evolves rt (fold resume_init ts rt)" for ts rt
    by (rule evolves_fold) (rule evolves_same, simp_all)
  have 2: "evolves rt (fold react_prompt ts rt)" for ts rt
    by (rule evolves_fold) (rule evolves_react_prompt)
  have 3: "evolves rt (fold (\<lambda>t. upd_turn t wake) ts rt)" for ts rt
    by (rule evolves_fold) (rule evolves_upd_turn, rule by_wake)
  show ?thesis
    unfolding microtasks_def Let_def by (rule evolves_trans [OF evolves_trans [OF 1 2] 3])
qed

lemma evolves_handler: "evolves rt (handler h rt)"
proof (cases h)
  case (Stdout a ls)
  then show ?thesis by (simp add: evolves_fold evolves_stdout_line)
next
  case (ChildClose a)
  have 1: "evolves rt (child_close_handler a rt)" by (rule evolves_same) simp_all
  have 2: "evolves (child_close_handler a rt)
             (fold (turn_close_listener a) [0..<n_turns rt] (child_close_handler a rt))"
    by (rule evolves_fold) (rule evolves_turn_close_listener)
  show ?thesis unfolding ChildClose handler.simps by (rule evolves_trans [OF 1 2])
next
  case (ChildError a err)
  then show ?thesis by (simp add: evolves_same)
next
  case (Timeout a r)
  then show ?thesis by (simp add: evolves_same)
next
  case (Written a r e)
  then show ?thesis by (simp add: evolves_same)
next
  case (Abort t)
  then show ?thesis by (simp add: evolves_abort)
next
  case (Next t)
  then show ?thesis by (simp add: evolves_next_event)
next
  case (EnsureSession inp)
  then show ?thesis by (simp add: evolves_same)
next
  case (RunTurn inp)
  then show ?thesis by (simp add: evolves_runTurn)
next
  case (CloseSession k)
  then show ?thesis by (simp add: evolves_same)
next
  case (Cancel k)
  then show ?thesis by (simp add: evolves_same)
next
  case (SetMode k m)
  then show ?thesis by (simp add: evolves_same)
qed

lemma evolves_step: "evolves rt (step h rt)"
  unfolding step_def by (rule evolves_trans [OF evolves_handler evolves_microtasks])

lemma evolves_run: "evolves rt (run hs rt)"
  unfolding run_def by (rule evolves_fold) (rule evolves_step)

lemma turns_fresh_new: "turns_fresh (new_runtime cfg)"
  by (simp add: turns_fresh_def new_runtime_def)



subsection \<open>The events of a turn\<close>

lemma turns_fresh_run: "turns_fresh (run hs (new_runtime cfg))"
  using evolves_run [of "new_runtime cfg" hs] turns_fresh_new by (simp add: evolves_def)

lemma evolves_Some:
  assumes "evolves rt rt'" and "turns_fresh rt" and "turns rt t = Some tu"
  shows "\<exists>tu'. turns rt' t = Some tu' \<and> turn_op\<^sup>*\<^sup>* tu tu'"
proof -
  have "evolved (turns rt t) (turns rt' t)" using assms(1,2) by (simp add: evolves_def)
  then show ?thesis using assms(3) by (simp add: evolved_def)
qed










text \<open>
  The sink receives what the mapper produced: an event comes out of the line handler only
  as the mapper's result for the params of a notification, and a stdout line appends it
  to \<open>delivered\<close> of the turn the agent's sink belongs to.
\<close>

lemma on_line_event:
  assumes "on_line l ag = (ag', Some e)"
  shows "ag' = ag \<and> (\<exists>msg params. l = Some msg \<and> js_get msg ''params'' = Some params
                          \<and> mapNotificationToEvent params = Some e)"
  using assms by (cases l ag rule: on_line_cases) auto

lemma stdout_line_delivered:
  assumes "procs rt a = Some ag" and "turns rt t = Some tu"
  shows "map_option delivered (turns (stdout_line a l rt) t) =
           Some (case snd (on_line l ag) of
                   None \<Rightarrow> delivered tu
                 | Some e \<Rightarrow> if notifications ag = Some t then delivered tu @ [e]
                             else delivered tu)"
proof (cases "snd (on_line l ag)")
  case None
  then show ?thesis using assms by (simp add: stdout_line_def split_beta)
next
  case (Some e)
  then have "on_line l ag = (fst (on_line l ag), Some e)" by (metis prod.collapse)
  then have "fst (on_line l ag) = ag" using on_line_event by blast
  then show ?thesis
    using assms Some
    by (cases "notifications ag")
      (auto simp: stdout_line_def split_beta turns_upd_turn sink_def push_def)
qed

text \<open>
  Progress of a started turn: once a terminal event is in the buffer (or is the event the
  generator is suspended at), the consumer's \<open>next()\<close> calls reach the end of the
  generator after at most one call more than the buffer is long. A generator that awaits
  with an empty buffer stays as it is: without a response to \<open>session/prompt\<close>, an
  abort or the close of the child nothing ends the turn, since \<open>session/prompt\<close> has no
  timeout.
\<close>

lemma resume_reaches_end:
  assumes "turn_inv tu" and "tu_agent tu \<noteq> None" and "phase tu \<noteq> Waiting"
    and "(\<exists>e\<in>set (events tu). terminal e) \<or> (\<exists>e. phase tu = AtYield e \<and> terminal e)
         \<or> phase tu = Ended"
  shows "\<exists>n\<le>length (events tu) + 1. phase ((resume ^^ n) tu) = Ended"
  using assms
proof (induction "length (events tu)" arbitrary: tu rule: less_induct)
  case less
  obtain a where a: "tu_agent tu = Some a" using less.prems(2) by blast
  show ?case
  proof (cases "phase tu")
    case Waiting
    then show ?thesis using less.prems(3) by simp
  next
    case Ended
    then have "phase ((resume ^^ 0) tu) = Ended" by simp
    then show ?thesis by blast
  next
    case (AtYield e)
    have nd: "\<not> done_flag tu" using less.prems(1) AtYield by (simp add: turn_inv_def)
    show ?thesis
    proof (cases "terminal e")
      case True
      then have "phase ((resume ^^ 1) tu) = Ended"
        using AtYield a by (simp add: resume_def pump_def)
      then show ?thesis by (metis le_add2)
    next
      case False
      then obtain x xs where ev: "events tu = x # xs" and tx: "terminal x \<or> (\<exists>e\<in>set xs. terminal e)"
        using less.prems(4) AtYield by (cases "events tu") auto
      have r: "resume tu = tu\<lparr> events := xs, yielded := yielded tu @ [x], phase := AtYield x \<rparr>"
        using AtYield a False nd ev by (simp add: resume_def pump_def)
      have 1: "turn_inv (resume tu)" using less.prems(1) by (rule resume_inv)
      have 2: "tu_agent (resume tu) \<noteq> None" "phase (resume tu) \<noteq> Waiting"
        "length (events (resume tu)) < length (events tu)" 
        using a ev by (simp_all add: r)
      have 3: "(\<exists>e\<in>set (events (resume tu)). terminal e)
               \<or> (\<exists>e. phase (resume tu) = AtYield e \<and> terminal e) \<or> phase (resume tu) = Ended"
        using tx by (auto simp: r)
      obtain n where n: "n \<le> length (events (resume tu)) + 1"
          "phase ((resume ^^ n) (resume tu)) = Ended"
        using less.hyps [OF 2(3) 1 2(1,2) 3] by blast
      have "phase ((resume ^^ Suc n) tu) = Ended" using n(2) by (simp add: funpow_swap1)
      moreover have "Suc n \<le> length (events tu) + 1" using n(1) ev by (simp add: r)
      ultimately show ?thesis by blast
    qed
  qed
qed

lemma silent_agent_turn_waits:
  "phase tu = Waiting \<Longrightarrow> events tu = [] \<Longrightarrow> resume tu = tu \<and> wake tu = tu"
  by (simp add: resume_def wake_def)

text \<open>A pre-aborted turn stays one.\<close>

lemma cancelled_turn_op: "turn_op tu tu' \<Longrightarrow> cancelled_turn tu \<Longrightarrow> cancelled_turn tu'"
proof (induction rule: turn_op.induct)
  case (by_push tu tu')
  then show ?case by (simp add: cancelled_turn_def pushes_def)
next
  case (by_resume tu)
  then show ?case by (cases "phase tu") (simp_all add: cancelled_turn_def resume_def)
next
  case (by_wake tu)
  then show ?case by (simp add: cancelled_turn_def wake_def)
qed

lemma cancelled_turn_ops:
  "turn_op\<^sup>*\<^sup>* tu tu' \<Longrightarrow> cancelled_turn tu \<Longrightarrow> cancelled_turn tu'"
  by (induction rule: rtranclp_induct) (simp_all add: cancelled_turn_op)

lemma runTurn_pre_aborted:
  assumes "in_signal inp = Some True"
  shows "runTurn inp rt =
           add_turn ((blank_turn (in_key inp))
                       \<lparr> tu_signal := True, phase := AtYield (Done (JStr ''cancelled'')),
                         yielded := [Done (JStr ''cancelled'')] \<rparr>) rt"
  using assms by (simp add: runTurn_def)

lemma cancelled_turn_stays:
  assumes "in_signal inp = Some True" and "turns_fresh rt"
  shows "\<exists>tu. turns (run hs (runTurn inp rt)) (n_turns rt) = Some tu \<and> cancelled_turn tu"
proof -
  let ?tu0 = "(blank_turn (in_key inp))
                \<lparr> tu_signal := True, phase := AtYield (Done (JStr ''cancelled'')),
                  yielded := [Done (JStr ''cancelled'')] \<rparr>"
  have 0: "turns (runTurn inp rt) (n_turns rt) = Some ?tu0"
    by (simp add: runTurn_pre_aborted [OF assms(1)] add_turn_def)
  have c0: "cancelled_turn ?tu0" by (simp add: cancelled_turn_def blank_turn_def)
  have f: "turns_fresh (runTurn inp rt)"
    using evolves_runTurn [of rt inp] assms(2) by (simp add: evolves_def)
  obtain tu where "turns (run hs (runTurn inp rt)) (n_turns rt) = Some tu" "turn_op\<^sup>*\<^sup>* ?tu0 tu"
    using evolves_Some [OF evolves_run f 0] by blast
  then show ?thesis using cancelled_turn_ops c0 by blast
qed

lemma cancelled_turn_next:
  assumes "turns rt t = Some tu" and "cancelled_turn tu"
  shows "procs (next_event t rt) = procs rt \<and> agents (next_event t rt) = agents rt
       \<and> map_option phase (turns (next_event t rt) t) = Some Ended
       \<and> map_option yielded (turns (next_event t rt) t) = Some [Done (JStr ''cancelled'')]
       \<and> abort t rt = rt"
  using assms by (cases "phase tu") (simp_all add: cancelled_turn_def next_event_def resume_def abort_def)

text \<open>
  Claim C3. When \<open>input.signal\<close> is already aborted, \<open>runTurn\<close> on any reachable
  runtime leaves every agent process as it is (nothing is written to any child, no request
  becomes pending), and likewise the registry and the initializations. Whatever happens
  afterwards, the sequence of events the turn has yielded is
  \<open>[done{stopReason: "cancelled"}]\<close>, it has not thrown, and its generator never awaits:
  the consumer's next \<open>next()\<close> finds it ended and changes no agent process; a later
  abort of the signal does nothing.
\<close>

theorem pre_aborted_short_circuit:
  assumes "in_signal inp = Some True" and "rt = run hs0 (new_runtime cfg)"
  shows "procs (runTurn inp rt) = procs rt \<and> agents (runTurn inp rt) = agents rt
       \<and> tasks (runTurn inp rt) = tasks rt
       \<and> (\<forall>hs. map_option yielded (turns (run hs (runTurn inp rt)) (n_turns rt))
                 = Some [Done (JStr ''cancelled'')]
               \<and> map_option failure (turns (run hs (runTurn inp rt)) (n_turns rt)) = Some None
               \<and> map_option phase (turns (run hs (runTurn inp rt)) (n_turns rt)) \<noteq> Some Waiting
               \<and> map_option phase (turns (next_event (n_turns rt) (run hs (runTurn inp rt)))
                                      (n_turns rt)) = Some Ended
               \<and> procs (next_event (n_turns rt) (run hs (runTurn inp rt)))
                   = procs (run hs (runTurn inp rt))
               \<and> abort (n_turns rt) (run hs (runTurn inp rt)) = run hs (runTurn inp rt))"
proof -
  have f: "turns_fresh rt" unfolding assms(2) by (rule turns_fresh_run)
  have 1: "procs (runTurn inp rt) = procs rt \<and> agents (runTurn inp rt) = agents rt
           \<and> tasks (runTurn inp rt) = tasks rt"
    by (simp add: runTurn_pre_aborted [OF assms(1)] add_turn_def)
  have 2: "map_option yielded (turns (run hs (runTurn inp rt)) (n_turns rt))
                 = Some [Done (JStr ''cancelled'')]
               \<and> map_option failure (turns (run hs (runTurn inp rt)) (n_turns rt)) = Some None
               \<and> map_option phase (turns (run hs (runTurn inp rt)) (n_turns rt)) \<noteq> Some Waiting
               \<and> map_option phase (turns (next_event (n_turns rt) (run hs (runTurn inp rt)))
                                      (n_turns rt)) = Some Ended
               \<and> procs (next_event (n_turns rt) (run hs (runTurn inp rt)))
                   = procs (run hs (runTurn inp rt))
               \<and> abort (n_turns rt) (run hs (runTurn inp rt)) = run hs (runTurn inp rt)" for hs
  proof -
    obtain tu where tu: "turns (run hs (runTurn inp rt)) (n_turns rt) = Some tu" "cancelled_turn tu"
      using cancelled_turn_stays [OF assms(1) f] by blast
    show ?thesis
      using cancelled_turn_next [OF tu] tu by (simp add: cancelled_turn_def)
  qed
  show ?thesis using 1 2 by blast
qed

theorem pre_aborted_short_circuit_witness:
  "procs (runTurn s1_turn_aborted (run (handshake s1_input) (new_runtime test_config)))
     = procs (run (handshake s1_input) (new_runtime test_config))
   \<and> map_option yielded
       (turns (run [Next 0, Stdout 0 [hello_chunk], Abort 0, ChildClose 0, Next 0]
                 (runTurn s1_turn_aborted (run (handshake s1_input) (new_runtime test_config)))) 0)
     = Some [Done (JStr ''cancelled'')]
   \<and> map_option phase
       (turns (next_event 0
                 (run [] (runTurn s1_turn_aborted (run (handshake s1_input) (new_runtime test_config))))) 0)
     = Some Ended"
proof -
  have a: "in_signal s1_turn_aborted = Some True" by (simp add: s1_turn_aborted_def)
  have n: "n_turns (run (handshake s1_input) (new_runtime test_config)) = 0"
    using handshake_state [of s1_input] by simp
  note T = pre_aborted_short_circuit [OF a refl, of "handshake s1_input" test_config, unfolded n]
  show ?thesis using T by blast
qed
end
